theory Spec2Isabelle
  imports
    Complex_Main
    "HOL-Library.Word"
    "HOL-Library.AList"
    "HOL-Library.Char_ord"
    "HOL-Library.List_Lexorder"
    "HOL-Library.Product_Lexorder"
begin

unbundle bit_operations_syntax

section \<open>Values, exceptions and data frames\<close>

text \<open>
  The program is Python on top of pandas, numpy, scipy and scikit-learn. Exceptions are
  values: a call returns \<open>Inl e\<close> when it raises. The names are Python's; the
  specification's \<open>UnknownColumn\<close> is the \<open>KeyError\<close> of a column lookup, its
  \<open>InvalidArgument\<close> the \<open>ValueError\<close> of the numeric libraries, and its
  \<open>EmptyColumn\<close> and \<open>DegenerateInput\<close> the \<open>ZeroDivisionError\<close> of a division by
  a length that is zero. \<open>OSError\<close> stands for the errors of a file that cannot be
  opened for writing (\<open>FileNotFoundError\<close>, \<open>PermissionError\<close> and the like are its
  subclasses), and \<open>ValueError\<close> also for pandas' \<open>OutOfBoundsDatetime\<close>, a subclass.

  Floating-point numbers are idealised as reals. A pandas timestamp is a count of
  nanoseconds since 1970-01-01T00:00, an integer; the largest instant that pandas holds
  bounds what \<^verbatim>\<open>pd.date_range\<close> builds. Every column holds a value in every row:
  missing values are outside the model.
\<close>

datatype error = KeyError | ZeroDivisionError | ValueError | IndexError | OverflowError | OSError

text \<open>
  A column is typed, as a pandas column of dtype \<open>int64\<close>, of strings, or of
  \<open>datetime64[ns]\<close> is. A scalar read from a column is a \<open>cell\<close>.
\<close>

datatype cell = IntV int | StrV string | TimeV int

datatype column = IntCol "int list" | StrCol "string list" | TimeCol "int list"

fun col_len :: "column \<Rightarrow> nat" where
  "col_len (IntCol xs) = length xs"
| "col_len (StrCol xs) = length xs"
| "col_len (TimeCol xs) = length xs"

fun cells :: "column \<Rightarrow> cell list" where
  "cells (IntCol xs) = map IntV xs"
| "cells (StrCol xs) = map StrV xs"
| "cells (TimeCol xs) = map TimeV xs"

text \<open>
  A data frame: the length of its index and its columns in order, by name.
  \<open>wf_dataframe\<close> is the invariant pandas keeps: the table is rectangular and no
  name occurs twice.
\<close>

record dataframe =
  nrows :: nat
  columns :: "(string \<times> column) list"

definition wf_dataframe :: "dataframe \<Rightarrow> bool" where
  "wf_dataframe d \<longleftrightarrow>
     distinct (map fst (columns d)) \<and> list_all (\<lambda>nc. col_len (snd nc) = nrows d) (columns d)"

text \<open>\<^verbatim>\<open>data[column]\<close>: the column, or \<open>KeyError\<close>.\<close>

definition df_getitem :: "dataframe \<Rightarrow> string \<Rightarrow> error + column" where
  "df_getitem d c = (case map_of (columns d) c of None \<Rightarrow> Inl KeyError | Some col \<Rightarrow> Inr col)"

text \<open>
  \<^verbatim>\<open>data[name] = values\<close>: \<open>ValueError\<close> when the length of the values is not
  the length of the index; otherwise the column is replaced where it stands, or added
  after the last column.
\<close>

definition df_setitem :: "dataframe \<Rightarrow> string \<Rightarrow> column \<Rightarrow> error + dataframe" where
  "df_setitem d name col =
     (if col_len col \<noteq> nrows d then Inl ValueError
      else Inr (d\<lparr>columns := AList.update name col (columns d)\<rparr>))"

text \<open>\<^verbatim>\<open>pd.DataFrame({...})\<close> from columns by name: \<open>ValueError\<close> unless all have one length.\<close>

definition DataFrame :: "(string \<times> column) list \<Rightarrow> error + dataframe" where
  "DataFrame cols =
     (case cols of
        [] \<Rightarrow> Inr \<lparr>nrows = 0, columns = []\<rparr>
      | (n, c) # rest \<Rightarrow>
          if list_all (\<lambda>nc. col_len (snd nc) = col_len c) rest
          then Inr \<lparr>nrows = col_len c, columns = cols\<rparr>
          else Inl ValueError)"

section \<open>Series primitives of pandas\<close>

text \<open>
  The distinct values of a series in order of first appearance (\<^verbatim>\<open>Series.unique\<close>);
  \<^const>\<open>remdups\<close> keeps last occurrences, hence the two reversals.
\<close>

definition unique :: "'a list \<Rightarrow> 'a list" where
  "unique xs = rev (remdups (rev xs))"

definition nunique :: "'a list \<Rightarrow> nat" where
  "nunique xs = length (unique xs)"

text \<open>
  \<^verbatim>\<open>Series.value_counts()\<close>: each distinct value with its number of occurrences, most
  frequent first. Values of equal frequency are kept in order of first appearance; what
  the program reads of the result (its first count, and the counts as a bag) does not
  depend on that order.
\<close>

definition value_counts :: "'a list \<Rightarrow> ('a \<times> nat) list" where
  "value_counts xs = sort_key (\<lambda>vc. - int (snd vc)) (map (\<lambda>v. (v, count_list xs v)) (unique xs))"

text \<open>\<^verbatim>\<open>Series.mode()\<close>: the values of greatest frequency, in ascending order.\<close>

definition mode :: "'a::linorder list \<Rightarrow> 'a list" where
  "mode xs = sort (filter (\<lambda>v. list_all (\<lambda>w. count_list xs w \<le> count_list xs v) xs) (unique xs))"

text \<open>\<^verbatim>\<open>s[0]\<close> on the result of \<open>mode\<close> and \<^verbatim>\<open>s.iloc[0]\<close>: the first entry, or an error on an empty series.\<close>

definition series_getitem0 :: "'a list \<Rightarrow> error + 'a" where
  "series_getitem0 s = (case s of [] \<Rightarrow> Inl KeyError | x # _ \<Rightarrow> Inr x)"

definition iloc0 :: "'a list \<Rightarrow> error + 'a" where
  "iloc0 s = (case s of [] \<Rightarrow> Inl IndexError | x # _ \<Rightarrow> Inr x)"

text \<open>Python's \<^verbatim>\<open>a / b\<close> on integers: true division, \<open>ZeroDivisionError\<close> when \<open>b = 0\<close>.\<close>

definition py_truediv :: "nat \<Rightarrow> nat \<Rightarrow> error + real" where
  "py_truediv a b = (if b = 0 then Inl ZeroDivisionError else Inr (real a / real b))"

section \<open>analysis.py: calculate\_metrics\<close>

record 'a metrics =
  num_unique :: nat
  num_total :: nat
  proportion_unique :: real
  most_common :: 'a
  count_most_common :: nat

text \<open>Lines 20 to 32 of \<^verbatim>\<open>calculate_metrics\<close>, on the values of the column.\<close>

definition series_metrics :: "'a::linorder list \<Rightarrow> error + 'a metrics" where
  "series_metrics xs =
     (let n_unique = nunique xs;
          n_total = length xs
      in case py_truediv n_unique n_total of
           Inl e \<Rightarrow> Inl e
         | Inr prop \<Rightarrow>
             (case series_getitem0 (mode xs) of
                Inl e \<Rightarrow> Inl e
              | Inr mc \<Rightarrow>
                  (case iloc0 (map snd (value_counts xs)) of
                     Inl e \<Rightarrow> Inl e
                   | Inr cmc \<Rightarrow>
                       Inr \<lparr>num_unique = n_unique, num_total = n_total,
                            proportion_unique = prop, most_common = mc,
                            count_most_common = cmc\<rparr>)))"

definition cell_metrics :: "('a \<Rightarrow> cell) \<Rightarrow> 'a metrics \<Rightarrow> cell metrics" where
  "cell_metrics f m =
     \<lparr>num_unique = num_unique m, num_total = num_total m,
      proportion_unique = proportion_unique m, most_common = f (most_common m),
      count_most_common = count_most_common m\<rparr>"

definition calculate_metrics :: "dataframe \<Rightarrow> string \<Rightarrow> error + cell metrics" where
  "calculate_metrics data column =
     (case df_getitem data column of
        Inl e \<Rightarrow> Inl e
      | Inr (IntCol xs) \<Rightarrow> map_sum id (cell_metrics IntV) (series_metrics xs)
      | Inr (StrCol xs) \<Rightarrow> map_sum id (cell_metrics StrV) (series_metrics xs)
      | Inr (TimeCol xs) \<Rightarrow> map_sum id (cell_metrics TimeV) (series_metrics xs))"

text \<open>A value of greatest frequency in a series.\<close>

definition is_mode :: "'a list \<Rightarrow> 'a \<Rightarrow> bool" where
  "is_mode xs v \<longleftrightarrow> v \<in> set xs \<and> list_all (\<lambda>w. count_list xs w \<le> count_list xs v) xs"

text \<open>
  The specification's ranking, in its own words: the distinct values ordered by
  descending frequency, then by ascending value; the most common value is the first.
\<close>

definition spec_most_common :: "'a::linorder list \<Rightarrow> 'a" where
  "spec_most_common xs = hd (sort_key (\<lambda>v. (- int (count_list xs v), v)) (unique xs))"

fun spec_most_common_cell :: "column \<Rightarrow> cell" where
  "spec_most_common_cell (IntCol xs) = IntV (spec_most_common xs)"
| "spec_most_common_cell (StrCol xs) = StrV (spec_most_common xs)"
| "spec_most_common_cell (TimeCol xs) = TimeV (spec_most_common xs)"

text \<open>The frame of \<^verbatim>\<open>tests/test_analysis.py\<close>.\<close>

definition test_data :: dataframe where
  "test_data = \<lparr>nrows = 6, columns = [(''response'', IntCol [1, 2, 2, 3, 3, 3])]\<rparr>"

text \<open>Further frames, on which the theorems below are run.\<close>

definition category_frame :: dataframe where
  "category_frame =
     \<lparr>nrows = 5,
      columns = [(''response'', IntCol [4, 4, 7, 7, 9]),
                 (''category'', StrCol [''B'', ''A'', ''B'', ''A'', ''C''])]\<rparr>"

definition empty_frame :: dataframe where
  "empty_frame = \<lparr>nrows = 0, columns = [(''response'', IntCol [])]\<rparr>"

definition constant_frame :: dataframe where
  "constant_frame = \<lparr>nrows = 3, columns = [(''response'', IntCol [5, 5, 5])]\<rparr>"

definition uniform_frame :: dataframe where
  "uniform_frame = \<lparr>nrows = 6, columns = [(''response'', IntCol [1, 2, 3, 1, 2, 3])]\<rparr>"

definition no_response_frame :: dataframe where
  "no_response_frame = \<lparr>nrows = 0, columns = [(''category'', StrCol [])]\<rparr>"

section \<open>testing.py: perform\_chi\_square\_test\<close>

text \<open>
  A float that may be infinite or not a number. Only a division by an expected
  frequency of zero, or a chi-square distribution without degrees of freedom, gives one.
\<close>

datatype pyfloat = Finite real | PosInf | NaN

fun fadd :: "pyfloat \<Rightarrow> pyfloat \<Rightarrow> pyfloat" where
  "fadd (Finite a) (Finite b) = Finite (a + b)"
| "fadd NaN _ = NaN"
| "fadd _ NaN = NaN"
| "fadd _ _ = PosInf"

text \<open>One term \<open>(observed - expected)\<^sup>2 / expected\<close> of the statistic.\<close>

definition chi_term :: "nat \<Rightarrow> real \<Rightarrow> pyfloat" where
  "chi_term ob ex =
     (if ex = 0 then (if ob = 0 then NaN else PosInf)
      else Finite ((real ob - ex)\<^sup>2 / ex))"

text \<open>
  \<^verbatim>\<open>scipy.stats.distributions.chi2.sf\<close>. The survival function \<open>Q df x\<close> of the
  chi-square distribution with \<open>df > 0\<close> degrees of freedom is a parameter \<open>Q\<close> of the
  model; scipy returns nan when \<open>df \<le> 0\<close>.
\<close>

definition chi2_sf :: "(nat \<Rightarrow> real \<Rightarrow> real) \<Rightarrow> pyfloat \<Rightarrow> int \<Rightarrow> pyfloat" where
  "chi2_sf Q stat df =
     (if df \<le> 0 then NaN
      else case stat of Finite x \<Rightarrow> Finite (Q (nat df) x) | PosInf \<Rightarrow> Finite 0 | NaN \<Rightarrow> NaN)"

text \<open>
  \<^verbatim>\<open>scipy.stats.chisquare(f_obs, f_exp=f_exp)\<close> on two one-dimensional arrays of one
  length (the program's always are): \<open>ValueError\<close> when the sums of the two differ by
  more than the relative tolerance \<open>10\<^sup>-\<^sup>8\<close>, else the statistic and its p-value at
  \<open>length f_obs - 1\<close> degrees of freedom.
\<close>

definition sums_differ :: "real \<Rightarrow> real \<Rightarrow> bool" where
  "sums_differ so se =
     (let d = \<bar>so - se\<bar>; m = min so se
      in if m = 0 then d \<noteq> 0 else d / m > 1 / 10 ^ 8)"

definition chisquare ::
  "(nat \<Rightarrow> real \<Rightarrow> real) \<Rightarrow> nat list \<Rightarrow> real list \<Rightarrow> error + (pyfloat \<times> pyfloat)" where
  "chisquare Q f_obs f_exp =
     (if length f_obs \<noteq> length f_exp then Inl ValueError
      else if sums_differ (real (sum_list f_obs)) (sum_list f_exp) then Inl ValueError
      else let terms = map2 chi_term f_obs f_exp;
               stat = foldl fadd (Finite 0) terms
           in Inr (stat, chi2_sf Q stat (int (length terms) - 1)))"

text \<open>\<^verbatim>\<open>data[column].value_counts().values\<close>: the counts, most frequent first.\<close>

definition value_counts_values :: "column \<Rightarrow> nat list" where
  "value_counts_values col = map snd (value_counts (cells col))"

text \<open>
  The survival function of the chi-square distribution with two degrees of freedom,
  \<open>exp (- x / 2)\<close>: the instance of \<open>Q\<close> on which the theorems are run.
\<close>

definition Q_two :: "nat \<Rightarrow> real \<Rightarrow> real" where
  "Q_two df x = exp (- x / 2)"

text \<open>Lines 20 to 23 of \<^verbatim>\<open>perform_chi_square_test\<close>.\<close>

definition perform_chi_square_test ::
  "(nat \<Rightarrow> real \<Rightarrow> real) \<Rightarrow> dataframe \<Rightarrow> string \<Rightarrow> error + (pyfloat \<times> pyfloat)" where
  "perform_chi_square_test Q data column =
     (case df_getitem data column of
        Inl e \<Rightarrow> Inl e
      | Inr col \<Rightarrow>
          (let observed = value_counts_values col
           in case py_truediv (nrows data) (length observed) of
                Inl e \<Rightarrow> Inl e
              | Inr ex \<Rightarrow> chisquare Q observed (replicate (length observed) ex)))"

text \<open>
  The specification's statistic, in its own words: the sum over the distinct observed
  values of \<open>(observed count - expected)\<^sup>2 / expected\<close>, with
  \<open>expected = total rows / number of distinct observed values\<close>.
\<close>

definition spec_statistic :: "cell list \<Rightarrow> real" where
  "spec_statistic xs =
     (let ex = real (length xs) / real (card (set xs))
      in \<Sum>v\<in>set xs. (real (count_list xs v) - ex)\<^sup>2 / ex)"

section \<open>The random number generator of numpy\<close>

text \<open>
  The state of numpy's legacy generator (a Mersenne Twister) is modelled by what it
  determines: the 32-bit words it will put out, in order. How \<^verbatim>\<open>np.random.seed\<close>
  turns a seed into that sequence is a parameter \<open>mt\<close> of the model.
\<close>

type_synonym bitgen = "nat \<Rightarrow> 32 word"

definition next_uint32 :: "bitgen \<Rightarrow> 32 word \<times> bitgen" where
  "next_uint32 g = (g 0, \<lambda>i. g (Suc i))"

text \<open>
  A double in \<open>[0, 1)\<close> from two words: the upper 27 bits of the first and the upper 26
  of the second, over \<open>2\<^sup>5\<^sup>3\<close>.
\<close>

definition next_double :: "bitgen \<Rightarrow> real \<times> bitgen" where
  "next_double g =
     (let (a, g1) = next_uint32 g;
          (b, g2) = next_uint32 g1
      in ((real (unat (drop_bit 5 a)) * 67108864 + real (unat (drop_bit 6 b)))
            / 9007199254740992, g2))"

fun random_sample :: "nat \<Rightarrow> bitgen \<Rightarrow> real list \<times> bitgen" where
  "random_sample 0 g = ([], g)"
| "random_sample (Suc n) g =
     (let (u, g1) = next_double g;
          (us, g2) = random_sample n g1
      in (u # us, g2))"

text \<open>
  A word in \<open>[0, rng]\<close> by masked rejection: the smallest mask of ones that covers
  \<open>rng\<close>, and words drawn until one, masked, is at most \<open>rng\<close>. The loop need not end.
\<close>

definition gen_mask :: "32 word \<Rightarrow> 32 word" where
  "gen_mask rng =
     (let m = rng;
          m = m OR drop_bit 1 m;
          m = m OR drop_bit 2 m;
          m = m OR drop_bit 4 m;
          m = m OR drop_bit 8 m;
          m = m OR drop_bit 16 m
      in m)"

partial_function (option) bounded_masked_uint32 ::
  "32 word \<Rightarrow> 32 word \<Rightarrow> bitgen \<Rightarrow> (32 word \<times> bitgen) option" where
  "bounded_masked_uint32 rng msk g =
     (if rng < (g 0 AND msk) then bounded_masked_uint32 rng msk (\<lambda>i. g (Suc i))
      else Some (g 0 AND msk, \<lambda>i. g (Suc i)))"

declare bounded_masked_uint32.simps [code]

fun bounded_fill :: "nat \<Rightarrow> 32 word \<Rightarrow> bitgen \<Rightarrow> (nat list \<times> bitgen) option" where
  "bounded_fill 0 rng g = Some ([], g)"
| "bounded_fill (Suc n) rng g =
     (case bounded_masked_uint32 rng (gen_mask rng) g of
        None \<Rightarrow> None
      | Some (v, g1) \<Rightarrow>
          (case bounded_fill n rng g1 of
             None \<Rightarrow> None
           | Some (vs, g2) \<Rightarrow> Some (unat v # vs, g2)))"

text \<open>
  \<^verbatim>\<open>randint(0, pop_size, size)\<close> for a population of at most \<open>2\<^sup>3\<^sup>2\<close> entries (the
  program's has four): no word is drawn for a population of one, the words themselves
  are taken for one of \<open>2\<^sup>3\<^sup>2\<close>, and the masked rejection runs otherwise.
\<close>

definition randint0 :: "nat \<Rightarrow> nat \<Rightarrow> bitgen \<Rightarrow> (nat list \<times> bitgen) option" where
  "randint0 pop_size n g =
     (if pop_size = 1 then Some (replicate n 0, g)
      else if pop_size = 2 ^ 32 then Some (map (\<lambda>i. unat (g i)) [0..<n], \<lambda>i. g (n + i))
      else bounded_fill n (word_of_nat (pop_size - 1)) g)"

text \<open>
  \<^verbatim>\<open>np.cumsum\<close> and \<^verbatim>\<open>searchsorted(side='right')\<close>: the running sums, and the number
  of entries of an ascending array that are at most the sample.
\<close>

fun cumsum_from :: "real \<Rightarrow> real list \<Rightarrow> real list" where
  "cumsum_from acc [] = []"
| "cumsum_from acc (x # xs) = (acc + x) # cumsum_from (acc + x) xs"

definition cumsum :: "real list \<Rightarrow> real list" where
  "cumsum xs = cumsum_from 0 xs"

definition searchsorted_right :: "real list \<Rightarrow> real \<Rightarrow> nat" where
  "searchsorted_right cdf u = length (filter (\<lambda>c. c \<le> u) cdf)"

text \<open>\<^verbatim>\<open>a[idx]\<close> for an array of indices: \<open>IndexError\<close> when one is out of bounds.\<close>

definition take_indices :: "'a list \<Rightarrow> nat list \<Rightarrow> error + 'a list" where
  "take_indices a idx =
     (if list_all (\<lambda>i. i < length a) idx then Inr (map (\<lambda>i. a ! i) idx) else Inl IndexError)"

text \<open>
  \<^verbatim>\<open>np.random.choice(a, size=size, p=p)\<close>. The weights are checked first: as many as
  entries of \<open>a\<close>, none negative, and a sum within \<open>\<surd>\<epsilon> = 2\<^sup>-\<^sup>2\<^sup>6\<close> of 1 (\<open>\<epsilon> = 2\<^sup>-\<^sup>5\<^sup>2\<close>,
  the machine epsilon of a double). A negative size fails when the array of samples is
  allocated. Each sample is then looked up in the normalised running sums.
\<close>

definition choice_p ::
  "bitgen \<Rightarrow> 'a list \<Rightarrow> int \<Rightarrow> real list \<Rightarrow> error + ('a list \<times> bitgen)" where
  "choice_p g a sz p =
     (if a = [] \<and> sz \<noteq> 0 then Inl ValueError
      else if length p \<noteq> length a then Inl ValueError
      else if list_ex (\<lambda>x. x < 0) p then Inl ValueError
      else if \<bar>sum_list p - 1\<bar> > 1 / 2 ^ 26 then Inl ValueError
      else if sz < 0 then Inl ValueError
      else let cdf = cumsum p;
               cdf = map (\<lambda>c. c / last cdf) cdf;
               (uniform_samples, g1) = random_sample (nat sz) g;
               idx = map (searchsorted_right cdf) uniform_samples
           in case take_indices a idx of
                Inl e \<Rightarrow> Inl e
              | Inr r \<Rightarrow> Inr (r, g1))"

text \<open>\<^verbatim>\<open>np.random.choice(a, size=size)\<close>: uniform, by \<open>randint\<close>.\<close>

definition choice ::
  "bitgen \<Rightarrow> 'a list \<Rightarrow> int \<Rightarrow> (error + ('a list \<times> bitgen)) option" where
  "choice g a sz =
     (if a = [] \<and> sz \<noteq> 0 then Some (Inl ValueError)
      else if sz < 0 then Some (Inl ValueError)
      else if a = [] then Some (Inr ([], g))
      else case randint0 (length a) (nat sz) g of
             None \<Rightarrow> None
           | Some (idx, g1) \<Rightarrow>
               (case take_indices a idx of
                  Inl e \<Rightarrow> Some (Inl e)
                | Inr r \<Rightarrow> Some (Inr (r, g1))))"

section \<open>data\_processing.py: generate\_random\_dataset\<close>

text \<open>
  \<^verbatim>\<open>pd.date_range(start, periods=n, freq="min")\<close>: \<open>n\<close> instants one minute apart.
  A negative \<open>n\<close> is an \<open>OverflowError\<close>, and a last instant after \<open>tmax\<close>, the largest
  that pandas holds, is a \<open>ValueError\<close> (\<open>OutOfBoundsDatetime\<close>); with timestamps of
  64-bit nanoseconds, \<open>tmax\<close> is \<open>2\<^sup>6\<^sup>3 - 1\<close>. \<open>epoch_2024\<close> is the start the program
  gives, \<^verbatim>\<open>"2024-01-01"\<close> at 00:00, in nanoseconds since 1970-01-01T00:00;
  \<open>days_from_civil\<close> counts the days from 1970-01-01 to a date of the Gregorian calendar.
\<close>

definition days_from_civil :: "int \<Rightarrow> int \<Rightarrow> int \<Rightarrow> int" where
  "days_from_civil y m d =
     (let y1 = (if m \<le> 2 then y - 1 else y);
          era = y1 div 400;
          yoe = y1 - era * 400;
          doy = (153 * (if 2 < m then m - 3 else m + 9) + 2) div 5 + d - 1;
          doe = yoe * 365 + yoe div 4 - yoe div 100 + doy
      in era * 146097 + doe - 719468)"

definition minute_ns :: int where
  "minute_ns = 60 * 10 ^ 9"

definition epoch_2024 :: int where
  "epoch_2024 = days_from_civil 2024 1 1 * 1440 * minute_ns"

definition date_range :: "int \<Rightarrow> int \<Rightarrow> int \<Rightarrow> error + int list" where
  "date_range tmax start periods =
     (if periods < 0 then Inl OverflowError
      else if 0 < periods \<and> tmax < start + (periods - 1) * minute_ns then Inl ValueError
      else Inr (map (\<lambda>i. start + int i * minute_ns) [0..<nat periods]))"

text \<open>
  What a call can change besides its result: numpy's global generator, the files
  written (a file holds the frame saved to it) and the lines printed. What it finds:
  the paths that can be opened for writing, and the largest instant that the installed
  pandas holds.
\<close>

record world =
  global_rng :: bitgen
  files :: "string \<Rightarrow> dataframe option"
  stdout :: "string list"
  writable :: "string \<Rightarrow> bool"
  timestamp_max :: int

text \<open>
  \<^verbatim>\<open>df.to_csv(filename, index=False)\<close>: the file then holds the frame, or the path
  cannot be opened for writing, no file is changed and the call raises.
\<close>

definition to_csv :: "world \<Rightarrow> string \<Rightarrow> dataframe \<Rightarrow> error + world" where
  "to_csv w filename df =
     (if writable w filename then Inr (w\<lparr>files := (files w)(filename \<mapsto> df)\<rparr>)
      else Inl OSError)"

definition response_values :: "int list" where
  "response_values = [1, 2, 3, 4, 5, 6, 7, 8, 9, 10]"

definition response_weights :: "real list" where
  "response_weights = [0.1, 0.15, 0.05, 0.1, 0.2, 0.1, 0.1, 0.1, 0.05, 0.05]"

definition category_values :: "string list" where
  "category_values = [''A'', ''B'', ''C'', ''D'']"

text \<open>
  The body of \<^verbatim>\<open>generate_random_dataset\<close> with the weights of the responses as an
  argument; the program's are \<open>response_weights\<close>. The result is \<open>None\<close> when the call
  does not return. A call that raises has printed nothing; the generator is as far as
  the draws before the error left it.
\<close>

definition generate_with ::
  "real list \<Rightarrow> (nat \<Rightarrow> bitgen) \<Rightarrow> world \<Rightarrow> string \<Rightarrow> int \<Rightarrow> ((error + dataframe) \<times> world) option" where
  "generate_with p mt w filename num_rows =
     (let g0 = mt 42
      in case choice_p g0 response_values num_rows p of
           Inl e \<Rightarrow> Some (Inl e, w\<lparr>global_rng := g0\<rparr>)
         | Inr (responses, g1) \<Rightarrow>
             (case choice g1 category_values num_rows of
                None \<Rightarrow> None
              | Some (Inl e) \<Rightarrow> Some (Inl e, w\<lparr>global_rng := g1\<rparr>)
              | Some (Inr (categories, g2)) \<Rightarrow>
                  (case date_range (timestamp_max w) epoch_2024 num_rows of
                     Inl e \<Rightarrow> Some (Inl e, w\<lparr>global_rng := g2\<rparr>)
                   | Inr timestamps \<Rightarrow>
                       (case DataFrame [(''response'', IntCol responses),
                                        (''category'', StrCol categories),
                                        (''timestamp'', TimeCol timestamps)] of
                          Inl e \<Rightarrow> Some (Inl e, w\<lparr>global_rng := g2\<rparr>)
                        | Inr df \<Rightarrow>
                            (case to_csv (w\<lparr>global_rng := g2\<rparr>) filename df of
                               Inl e \<Rightarrow> Some (Inl e, w\<lparr>global_rng := g2\<rparr>)
                             | Inr w' \<Rightarrow>
                                 Some (Inr df,
                                       w'\<lparr>stdout := stdout w' @
                                            [''Dataset saved to: '' @ filename]\<rparr>))))))"

definition generate_random_dataset ::
  "(nat \<Rightarrow> bitgen) \<Rightarrow> world \<Rightarrow> string \<Rightarrow> int \<Rightarrow> ((error + dataframe) \<times> world) option" where
  "generate_random_dataset mt w filename num_rows =
     generate_with response_weights mt w filename num_rows"

text \<open>
  A generator and a world on which the theorems are run: the words of \<open>demo_mt seed\<close>
  are multiples of a fixed odd word, not those of the Mersenne Twister. In \<open>demo_world\<close>
  every path but the empty one can be written (opening \<^verbatim>\<open>''\<close> is a
  \<open>FileNotFoundError\<close> on every system), and timestamps are 64-bit nanoseconds.
\<close>

definition demo_mt :: "nat \<Rightarrow> bitgen" where
  "demo_mt seed = (\<lambda>i. word_of_nat (seed + i) * 2654435769)"

definition demo_world :: world where
  "demo_world = \<lparr>global_rng = (\<lambda>i. 0), files = Map.empty, stdout = [],
                  writable = (\<lambda>path. path \<noteq> []), timestamp_max = 2 ^ 63 - 1\<rparr>"

section \<open>analysis.py: perform\_clustering\<close>

text \<open>
  \<^verbatim>\<open>KMeans(n_clusters, random_state).fit_predict(X)\<close> on a frame \<open>X\<close> of one column.
  scikit-learn refuses fewer than one cluster, converts \<open>X\<close> to floats, and refuses no
  sample and fewer samples than clusters, each with a \<open>ValueError\<close>. A column of
  integers converts as it is, and a column of timestamps to its counts of nanoseconds.
  A column of strings converts when each of its strings does, and is refused with a
  \<open>ValueError\<close> otherwise; what the conversion makes of a string is a parameter
  \<open>conv\<close> (\<open>None\<close> for a string that is refused), and so is the partitioning itself:
  \<open>km random_state k xs\<close> are the labels that k-means, seeded with \<open>random_state\<close>,
  gives the values \<open>xs\<close>.
\<close>

fun check_array :: "(string \<Rightarrow> real option) \<Rightarrow> column \<Rightarrow> error + real list" where
  "check_array conv (IntCol xs) = Inr (map real_of_int xs)"
| "check_array conv (StrCol ss) =
     (case those (map conv ss) of None \<Rightarrow> Inl ValueError | Some xs \<Rightarrow> Inr xs)"
| "check_array conv (TimeCol ts) = Inr (map real_of_int ts)"

definition fit_predict ::
  "(string \<Rightarrow> real option) \<Rightarrow> (nat \<Rightarrow> nat \<Rightarrow> real list \<Rightarrow> nat list) \<Rightarrow>
     int \<Rightarrow> nat \<Rightarrow> column \<Rightarrow> error + nat list" where
  "fit_predict conv km n_clusters random_state X =
     (if n_clusters < 1 then Inl ValueError
      else case check_array conv X of
             Inl e \<Rightarrow> Inl e
           | Inr xs \<Rightarrow>
               if length xs < 1 then Inl ValueError
               else if int (length xs) < n_clusters then Inl ValueError
               else Inr (km random_state (nat n_clusters) xs))"

text \<open>Python's \<^verbatim>\<open>str\<close> of an integer.\<close>

fun str_nat :: "nat \<Rightarrow> string" where
  "str_nat n =
     (if n < 10 then [''0123456789'' ! n]
      else str_nat (n div 10) @ [''0123456789'' ! (n mod 10)])"

definition str_int :: "int \<Rightarrow> string" where
  "str_int i = (if i < 0 then CHR ''-'' # str_nat (nat (- i)) else str_nat (nat i))"

text \<open>
  \<^verbatim>\<open>perform_clustering\<close> changes the frame it is given and returns it. The model
  returns the result, the frame as the caller holds it after the call, and the lines
  printed.
\<close>

definition perform_clustering ::
  "(string \<Rightarrow> real option) \<Rightarrow> (nat \<Rightarrow> nat \<Rightarrow> real list \<Rightarrow> nat list) \<Rightarrow>
     dataframe \<Rightarrow> string list \<Rightarrow> string \<Rightarrow> int \<Rightarrow>
     (error + dataframe) \<times> dataframe \<times> string list" where
  "perform_clustering conv km data out column n_clusters =
     (case df_getitem data column of
        Inl e \<Rightarrow> (Inl e, data, out)
      | Inr X \<Rightarrow>
          (case fit_predict conv km n_clusters 0 X of
             Inl e \<Rightarrow> (Inl e, data, out)
           | Inr labels \<Rightarrow>
               (case df_setitem data ''cluster'' (IntCol (map int labels)) of
                  Inl e \<Rightarrow> (Inl e, data, out)
                | Inr data' \<Rightarrow>
                    (Inr data', data',
                     out @ [''Clustering complete. Added 'cluster' column with ''
                              @ str_int n_clusters @ '' clusters.'']))))"

text \<open>
  A conversion and a partitioning on which the theorems are run: \<open>demo_conv\<close> reads a
  string of decimal digits as its number and refuses any other string (Python's
  \<^verbatim>\<open>float\<close> reads more: signs, fractions, exponents), and the label that \<open>demo_km\<close>
  gives a value is its integer part modulo \<open>k\<close>.
\<close>

definition demo_conv :: "string \<Rightarrow> real option" where
  "demo_conv s =
     (if s \<noteq> [] \<and> list_all (\<lambda>c. c \<in> set ''0123456789'') s
      then Some (real (foldl (\<lambda>n c. 10 * n + (of_char c - 48)) 0 s))
      else None)"

definition demo_km :: "nat \<Rightarrow> nat \<Rightarrow> real list \<Rightarrow> nat list" where
  "demo_km random_state k xs = map (\<lambda>x. nat \<lfloor>x\<rfloor> mod k) xs"

text \<open>The frame of the test after a first clustering by \<open>demo_km\<close> with three clusters.\<close>

definition clustered_test_data :: dataframe where
  "clustered_test_data =
     \<lparr>nrows = 6, columns = [(''response'', IntCol [1, 2, 2, 3, 3, 3]),
                           (''cluster'', IntCol [1, 2, 2, 0, 0, 0])]\<rparr>"

text \<open>A frame whose only column holds the first three minutes of 2024.\<close>

definition timestamp_frame :: dataframe where
  "timestamp_frame =
     \<lparr>nrows = 3,
      columns = [(''timestamp'', TimeCol [1704067200000000000, 1704067260000000000,
                                          1704067320000000000])]\<rparr>"

section \<open>Facts about the series primitives\<close>

lemma set_unique: "set (unique xs) = set xs" by (simp add: unique_def)
lemma distinct_unique: "distinct (unique xs)" by (simp add: unique_def)
lemma nunique_card: "nunique xs = card (set xs)"
  by (simp add: nunique_def unique_def length_remdups_card_conv)
lemma unique_Nil_iff: "unique xs = [] \<longleftrightarrow> xs = []"
  by (simp add: unique_def)

lemma hd_sort_key_least:
  assumes "ys \<noteq> []"
  shows "hd (sort_key k ys) \<in> set ys \<and> (\<forall>y\<in>set ys. k (hd (sort_key k ys)) \<le> k y)"
proof -
  let ?zs = "sort_key k ys"
  have ne: "?zs \<noteq> []" using assms by (metis length_0_conv length_sort)
  then obtain z zs where zs: "?zs = z # zs" by (cases ?zs) auto
  have "sorted (map k ?zs)" by (rule sorted_sort_key)
  with zs have a: "\<forall>y\<in>set ?zs. k z \<le> k y" by auto
  have b: "z \<in> set ?zs" using zs by simp
  have c: "set ?zs = set ys" by (rule set_sort)
  have hz: "hd ?zs = z" by (simp only: zs list.sel)
  show ?thesis unfolding hz using a b unfolding c by blast
qed

lemma ex_max_count:
  assumes "xs \<noteq> []"
  shows "\<exists>v\<in>set xs. \<forall>w\<in>set xs. count_list xs w \<le> count_list xs v"
proof -
  let ?S = "count_list xs ` set xs"
  have "finite ?S" "?S \<noteq> {}" using assms by auto
  then have "Max ?S \<in> ?S" by (rule Max_in)
  then obtain v where v: "v \<in> set xs" "count_list xs v = Max ?S" by auto
  have "\<forall>w\<in>set xs. count_list xs w \<le> Max ?S" by simp
  with v show ?thesis by metis
qed

lemma set_mode: "set (mode xs) = {v. is_mode xs v}"
  by (auto simp: mode_def is_mode_def set_unique)

lemma mode_nonempty: "xs \<noteq> [] \<Longrightarrow> mode xs \<noteq> []"
proof -
  assume "xs \<noteq> []"
  then obtain v where "is_mode xs v" using ex_max_count[of xs] by (auto simp: is_mode_def list_all_iff)
  then have "v \<in> set (mode xs)" by (simp add: set_mode)
  then show ?thesis by auto
qed

lemma hd_mode:
  assumes "xs \<noteq> []"
  shows "is_mode xs (hd (mode xs)) \<and> (\<forall>v. is_mode xs v \<longrightarrow> hd (mode xs) \<le> v)"
proof -
  let ?ys = "filter (\<lambda>v. list_all (\<lambda>w. count_list xs w \<le> count_list xs v) xs) (unique xs)"
  have m: "mode xs = sort_key (\<lambda>x. x) ?ys" by (simp add: mode_def)
  have "?ys \<noteq> []" using mode_nonempty[OF assms] unfolding m by auto
  from hd_sort_key_least[OF this, of "\<lambda>x. x"]
  have "hd (mode xs) \<in> set ?ys \<and> (\<forall>y\<in>set ?ys. hd (mode xs) \<le> y)" unfolding m .
  moreover have "set ?ys = {v. is_mode xs v}" by (auto simp: is_mode_def set_unique)
  ultimately show ?thesis by auto
qed

lemma hd_value_counts:
  assumes "xs \<noteq> []"
  shows "\<exists>v\<in>set xs. hd (map snd (value_counts xs)) = count_list xs v \<and> is_mode xs v"
proof -
  let ?ps = "map (\<lambda>v. (v, count_list xs v)) (unique xs)"
  let ?k = "\<lambda>vc::'a \<times> nat. - int (snd vc)"
  have ne: "?ps \<noteq> []" using assms by (simp add: unique_Nil_iff)
  from hd_sort_key_least[OF ne, of ?k]
  have h: "hd (value_counts xs) \<in> set ?ps" "\<forall>y\<in>set ?ps. ?k (hd (value_counts xs)) \<le> ?k y"
    unfolding value_counts_def by auto
  from h(1) obtain v where v: "v \<in> set xs" "hd (value_counts xs) = (v, count_list xs v)"
    by (auto simp: set_unique)
  have "\<forall>w\<in>set xs. count_list xs w \<le> count_list xs v"
  proof
    fix w assume "w \<in> set xs"
    then have "(w, count_list xs w) \<in> set ?ps" by (auto simp: set_unique)
    with h(2) v(2) show "count_list xs w \<le> count_list xs v" by fastforce
  qed
  moreover have "value_counts xs \<noteq> []" using ne unfolding value_counts_def
    by (metis length_0_conv length_sort)
  ultimately show ?thesis using v by (auto simp: is_mode_def list_all_iff hd_map)
qed

lemma is_mode_count_eq: "is_mode xs v \<Longrightarrow> is_mode xs w \<Longrightarrow> count_list xs v = count_list xs w"
  by (auto simp: is_mode_def list_all_iff intro: antisym)

lemma hd_mode_spec:
  assumes "xs \<noteq> []"
  shows "hd (mode xs) = spec_most_common xs"
proof -
  let ?k = "\<lambda>v. (- int (count_list xs v), v)"
  let ?s = "spec_most_common xs"
  let ?m = "hd (mode xs)"
  have ne: "unique xs \<noteq> []" using assms by (simp add: unique_Nil_iff)
  from hd_sort_key_least[OF ne, of ?k]
  have s: "?s \<in> set xs" "\<forall>y\<in>set xs. ?k ?s \<le> ?k y"
    by (auto simp: spec_most_common_def set_unique)
  from hd_mode[OF assms] have m: "is_mode xs ?m" "\<forall>v. is_mode xs v \<longrightarrow> ?m \<le> v" by auto
  from m(1) have min: "?m \<in> set xs" and mmax: "\<forall>w\<in>set xs. count_list xs w \<le> count_list xs ?m"
    by (auto simp: is_mode_def list_all_iff)
  from s(2) min have "?k ?s \<le> ?k ?m" by blast
  then have "count_list xs ?m < count_list xs ?s \<or> (count_list xs ?s = count_list xs ?m \<and> ?s \<le> ?m)"
    by (auto simp: less_eq_prod_def)
  with mmax s(1) have eq: "count_list xs ?s = count_list xs ?m" and le: "?s \<le> ?m"
    by (auto simp: not_less[symmetric])
  have "is_mode xs ?s" using s(1) mmax eq by (auto simp: is_mode_def list_all_iff)
  with m(2) have "?m \<le> ?s" by blast
  with le show ?thesis by simp
qed

lemma series_metrics_nonempty:
  assumes "xs \<noteq> []"
  shows "series_metrics xs =
    Inr \<lparr>num_unique = card (set xs), num_total = length xs,
         proportion_unique = real (card (set xs)) / real (length xs),
         most_common = spec_most_common xs,
         count_most_common = count_list xs (spec_most_common xs)\<rparr>"
proof -
  from mode_nonempty[OF assms] obtain m ms where m: "mode xs = m # ms" by (cases "mode xs") auto
  then have hm: "hd (mode xs) = m" by simp
  from hd_value_counts[OF assms] obtain v where
    v: "hd (map snd (value_counts xs)) = count_list xs v" "is_mode xs v" by blast
  have "value_counts xs \<noteq> []" using assms unfolding value_counts_def
    by (metis length_0_conv length_sort length_map unique_Nil_iff)
  then obtain c cs where c: "map snd (value_counts xs) = c # cs" by (cases "value_counts xs") auto
  have mm: "is_mode xs m" using hd_mode[OF assms] hm by simp
  have "count_list xs v = count_list xs m" using v(2) mm by (rule is_mode_count_eq)
  moreover have "hd (map snd (value_counts xs)) = c" by (simp only: c list.sel)
  ultimately have cm: "c = count_list xs m" using v(1) by simp
  have ms: "m = spec_most_common xs" using hd_mode_spec[OF assms] hm by simp
  have len: "length xs \<noteq> 0" using assms by simp
  show ?thesis
    unfolding series_metrics_def py_truediv_def series_getitem0_def iloc0_def Let_def
      nunique_card m c cm ms
    using len by simp
qed

lemma series_metrics_empty: "series_metrics ([]::'a::linorder list) = Inl ZeroDivisionError"
  by (simp add: series_metrics_def py_truediv_def)

section \<open>Facts about the chi-square test\<close>

lemma sum_list_insort_key:
  fixes f :: "'a \<Rightarrow> 'c::comm_monoid_add"
  shows "sum_list (map f (insort_key k x xs)) = f x + sum_list (map f xs)"
  by (induction xs) (simp_all add: add.left_commute)

lemma sum_list_sort_key:
  fixes f :: "'a \<Rightarrow> 'c::comm_monoid_add"
  shows "sum_list (map f (sort_key k xs)) = sum_list (map f xs)"
  by (induction xs) (simp_all add: sum_list_insort_key)

lemma length_value_counts: "length (value_counts xs) = card (set xs)"
  by (simp add: value_counts_def unique_def length_remdups_card_conv)

lemma sum_over_value_counts:
  fixes h :: "nat \<Rightarrow> 'c::comm_monoid_add"
  shows "sum_list (map (\<lambda>vc. h (snd vc)) (value_counts xs)) = (\<Sum>v\<in>set xs. h (count_list xs v))"
proof -
  have "sum_list (map (\<lambda>vc. h (snd vc)) (value_counts xs))
      = sum_list (map (\<lambda>vc. h (snd vc)) (map (\<lambda>v. (v, count_list xs v)) (unique xs)))"
    unfolding value_counts_def by (rule sum_list_sort_key)
  also have "\<dots> = sum_list (map (\<lambda>v. h (count_list xs v)) (unique xs))"
    by (simp add: comp_def)
  also have "\<dots> = (\<Sum>v\<in>set (unique xs). h (count_list xs v))"
    by (rule sum_list_distinct_conv_sum_set[OF distinct_unique])
  finally show ?thesis by (simp add: set_unique)
qed

lemma sum_counts_length: "(\<Sum>v\<in>set xs. count_list xs v) = length xs"
  by (rule sum_count_set) simp_all

lemma sum_list_value_counts: "sum_list (map snd (value_counts xs)) = length xs"
  using sum_over_value_counts[of "\<lambda>c. c" xs] by (simp add: sum_counts_length)

lemma foldl_fadd_Finite:
  "foldl fadd (Finite a) (map Finite ys) = Finite (a + sum_list ys)"
  by (induction ys arbitrary: a) (simp_all add: add.assoc)

lemma map2_chi_term_replicate:
  assumes "ex \<noteq> 0"
  shows "map2 chi_term obs (replicate (length obs) ex)
       = map Finite (map (\<lambda>c. (real c - ex)\<^sup>2 / ex) obs)"
  using assms by (induction obs) (simp_all add: chi_term_def)

lemma sums_differ_same: "\<not> sums_differ a a"
  by (simp add: sums_differ_def)

lemma chisquare_uniform_expected:
  assumes k: "obs \<noteq> []" and n: "sum_list obs = n" and n0: "0 < n"
  shows "chisquare Q obs (replicate (length obs) (real n / real (length obs)))
       = Inr (Finite (\<Sum>c\<leftarrow>obs. (real c - real n / real (length obs))\<^sup>2 / (real n / real (length obs))),
              chi2_sf Q (Finite (\<Sum>c\<leftarrow>obs. (real c - real n / real (length obs))\<^sup>2 / (real n / real (length obs))))
                 (int (length obs) - 1))"
proof -
  let ?k = "length obs"
  let ?ex = "real n / real ?k"
  have k0: "real ?k \<noteq> 0" using k by simp
  have ex0: "?ex \<noteq> 0" using k0 n0 by simp
  have se: "sum_list (replicate ?k ?ex) = real n"
    using k0 by (simp add: sum_list_replicate)
  have nd: "\<not> sums_differ (real (sum_list obs)) (sum_list (replicate ?k ?ex))"
    unfolding se n by (rule sums_differ_same)
  have terms: "map2 chi_term obs (replicate ?k ?ex) = map Finite (map (\<lambda>c. (real c - ?ex)\<^sup>2 / ?ex) obs)"
    by (rule map2_chi_term_replicate[OF ex0])
  show ?thesis
    unfolding chisquare_def Let_def terms foldl_fadd_Finite
    using nd by simp
qed

lemma spec_statistic_alt:
  "spec_statistic xs = (\<Sum>c\<leftarrow>map snd (value_counts xs).
      (real c - real (length xs) / real (card (set xs)))\<^sup>2 / (real (length xs) / real (card (set xs))))"
  unfolding spec_statistic_def Let_def
  using sum_over_value_counts[of "\<lambda>c. (real c - real (length xs) / real (card (set xs)))\<^sup>2 / (real (length xs) / real (card (set xs)))" xs]
  by (simp add: comp_def)

lemma wf_col_len:
  assumes "wf_dataframe d" "df_getitem d c = Inr col"
  shows "col_len col = nrows d"
proof -
  from assms(2) have "map_of (columns d) c = Some col"
    by (auto simp: df_getitem_def split: option.splits)
  then have "(c, col) \<in> set (columns d)" by (rule map_of_SomeD)
  with assms(1) show ?thesis by (auto simp: wf_dataframe_def list_all_iff)
qed

lemma length_cells: "length (cells col) = col_len col"
  by (cases col) simp_all

lemma chi_square_nonempty:
  assumes wf: "wf_dataframe data" and g: "df_getitem data column = Inr col" and ne: "0 < col_len col"
  shows "perform_chi_square_test Q data column =
      Inr (Finite (spec_statistic (cells col)),
           chi2_sf Q (Finite (spec_statistic (cells col))) (int (card (set (cells col))) - 1))"
proof -
  let ?xs = "cells col"
  let ?obs = "map snd (value_counts ?xs)"
  have len: "length ?xs = nrows data" using wf_col_len[OF wf g] by (simp add: length_cells)
  have xs: "?xs \<noteq> []" using ne by (simp add: length_cells[symmetric])
  have k: "length ?obs = card (set ?xs)" by (simp add: length_value_counts)
  have kpos: "0 < card (set ?xs)" using xs by (simp add: card_gt_0_iff)
  have obs: "?obs \<noteq> []" using k kpos by auto
  have s: "sum_list ?obs = nrows data" using sum_list_value_counts[of ?xs] len by simp
  have n0: "0 < nrows data" using len xs by (metis length_greater_0_conv)
  from chisquare_uniform_expected[OF obs s n0, of Q]
  have c: "chisquare Q ?obs (replicate (length ?obs) (real (nrows data) / real (length ?obs))) =
     Inr (Finite (spec_statistic ?xs), chi2_sf Q (Finite (spec_statistic ?xs)) (int (card (set ?xs)) - 1))"
    unfolding spec_statistic_alt k len by simp
  have kk: "length ?obs \<noteq> 0" using obs by simp
  show ?thesis
    unfolding perform_chi_square_test_def g value_counts_values_def Let_def py_truediv_def
    using kk c by simp
qed

lemma chi_square_empty:
  assumes g: "df_getitem data column = Inr col" and e: "col_len col = 0"
  shows "perform_chi_square_test Q data column = Inl ZeroDivisionError"
proof -
  have "cells col = []" using e by (simp add: length_cells[symmetric])
  then have "value_counts_values col = []"
    by (simp add: value_counts_values_def value_counts_def unique_def)
  then show ?thesis
    by (simp add: perform_chi_square_test_def g py_truediv_def)
qed

lemma spec_statistic_equal_counts:
  assumes "\<forall>v\<in>set xs. \<forall>w\<in>set xs. count_list xs v = count_list xs w"
  shows "spec_statistic xs = 0"
proof (cases "xs = []")
  case True then show ?thesis by (simp add: spec_statistic_def)
next
  case False
  then obtain a where a: "a \<in> set xs" by (cases xs) auto
  let ?c = "count_list xs a"
  have all: "\<forall>v\<in>set xs. count_list xs v = ?c" using assms a by blast
  have "length xs = (\<Sum>v\<in>set xs. count_list xs v)" by (simp add: sum_counts_length)
  also have "\<dots> = (\<Sum>v\<in>set xs. ?c)" using all by simp
  also have "\<dots> = card (set xs) * ?c" by simp
  finally have len: "length xs = card (set xs) * ?c" .
  have kpos: "0 < card (set xs)" using False by (simp add: card_gt_0_iff)
  have ex: "real (length xs) / real (card (set xs)) = real ?c" using kpos len by simp
  show ?thesis unfolding spec_statistic_def Let_def ex using all by simp
qed

lemma spec_statistic_nonneg: "0 \<le> spec_statistic xs"
  unfolding spec_statistic_def Let_def by (intro sum_nonneg) simp

section \<open>Facts about calculate\_metrics\<close>

lemma inj_cell_ctors: "inj IntV" "inj StrV" "inj TimeV"
  by (simp_all add: inj_def)

lemma count_list_cells:
  "count_list (map IntV xs) (IntV x) = count_list xs x"
  "count_list (map StrV ys) (StrV y) = count_list ys y"
  "count_list (map TimeV zs) (TimeV z) = count_list zs z"
  by (simp_all add: count_list_map_conv inj_cell_ctors)

lemma card_set_cells:
  "card (set (map IntV xs)) = card (set xs)"
  "card (set (map StrV ys)) = card (set ys)"
  "card (set (map TimeV zs)) = card (set zs)"
  by (simp_all add: card_image inj_on_def)

lemma calculate_metrics_nonempty:
  assumes g: "df_getitem data column = Inr col" and ne: "0 < col_len col"
  shows "calculate_metrics data column =
     Inr \<lparr>num_unique = card (set (cells col)), num_total = col_len col,
          proportion_unique = real (card (set (cells col))) / real (col_len col),
          most_common = spec_most_common_cell col,
          count_most_common = count_list (cells col) (spec_most_common_cell col)\<rparr>"
proof (cases col)
  case (IntCol xs)
  then have "xs \<noteq> []" using ne by auto
  from series_metrics_nonempty[OF this] show ?thesis
    unfolding calculate_metrics_def g IntCol
    by (simp add: cell_metrics_def count_list_cells card_set_cells del: set_map)
next
  case (StrCol xs)
  then have "xs \<noteq> []" using ne by auto
  from series_metrics_nonempty[OF this] show ?thesis
    unfolding calculate_metrics_def g StrCol
    by (simp add: cell_metrics_def count_list_cells card_set_cells del: set_map)
next
  case (TimeCol xs)
  then have "xs \<noteq> []" using ne by auto
  from series_metrics_nonempty[OF this] show ?thesis
    unfolding calculate_metrics_def g TimeCol
    by (simp add: cell_metrics_def count_list_cells card_set_cells del: set_map)
qed

lemma calculate_metrics_empty:
  assumes g: "df_getitem data column = Inr col" and e: "col_len col = 0"
  shows "calculate_metrics data column = Inl ZeroDivisionError"
  using e unfolding calculate_metrics_def g
  by (cases col) (simp_all add: series_metrics_empty)

lemma calculate_metrics_absent:
  assumes "map_of (columns data) column = None"
  shows "calculate_metrics data column = Inl KeyError"
  using assms by (simp add: calculate_metrics_def df_getitem_def)

lemma df_getitem_cases:
  "(map_of (columns data) column = None \<and> df_getitem data column = Inl KeyError) \<or>
   (\<exists>col. map_of (columns data) column = Some col \<and> df_getitem data column = Inr col)"
  by (cases "map_of (columns data) column") (simp_all add: df_getitem_def)

lemma calculate_metrics_InrD:
  assumes "calculate_metrics data column = Inr m"
  shows "\<exists>col. df_getitem data column = Inr col \<and> 0 < col_len col"
proof -
  from df_getitem_cases[of data column] assms obtain col where g: "df_getitem data column = Inr col"
    by (auto simp: calculate_metrics_absent)
  have "col_len col \<noteq> 0" using calculate_metrics_empty[OF g] assms by auto
  with g show ?thesis by auto
qed

lemma spec_most_common_is_mode:
  assumes "xs \<noteq> []" shows "is_mode xs (spec_most_common xs)"
  using hd_mode[OF assms] hd_mode_spec[OF assms] by simp

lemma mode_count_pigeonhole:
  assumes "is_mode xs m"
  shows "length xs \<le> count_list xs m * card (set xs)"
proof -
  have le: "\<forall>v\<in>set xs. count_list xs v \<le> count_list xs m"
    using assms by (simp add: is_mode_def list_all_iff)
  have "length xs = (\<Sum>v\<in>set xs. count_list xs v)" by (simp add: sum_counts_length)
  also have "\<dots> \<le> (\<Sum>v\<in>set xs. count_list xs m)" using le by (intro sum_mono) simp
  also have "\<dots> = card (set xs) * count_list xs m" by simp
  finally show ?thesis by (simp add: mult.commute)
qed

lemma is_mode_map_inj:
  assumes f: "inj f" and m: "is_mode xs v"
  shows "is_mode (map f xs) (f v)"
  using m by (auto simp: is_mode_def list_all_iff count_list_map_conv[OF f])

lemma spec_most_common_cell_mode:
  assumes "0 < col_len col"
  shows "is_mode (cells col) (spec_most_common_cell col)"
proof (cases col)
  case (IntCol xs)
  then have "xs \<noteq> []" using assms by auto
  from is_mode_map_inj[OF inj_cell_ctors(1) spec_most_common_is_mode[OF this]]
  show ?thesis by (simp add: IntCol)
next
  case (StrCol xs)
  then have "xs \<noteq> []" using assms by auto
  from is_mode_map_inj[OF inj_cell_ctors(2) spec_most_common_is_mode[OF this]]
  show ?thesis by (simp add: StrCol)
next
  case (TimeCol xs)
  then have "xs \<noteq> []" using assms by auto
  from is_mode_map_inj[OF inj_cell_ctors(3) spec_most_common_is_mode[OF this]]
  show ?thesis by (simp add: TimeCol)
qed

text \<open>
  Claim C3. Where the column exists and has a row, \<^verbatim>\<open>calculate_metrics\<close> returns the
  number of distinct values, the number of rows, their quotient as \<open>proportion_unique\<close>,
  as \<open>most_common\<close> the first value in the order of descending frequency, then ascending
  value (\<^const>\<open>spec_most_common_cell\<close>), and as \<open>count_most_common\<close> the number of
  occurrences of that value. On the frame of the repository's test, \<open>[1,2,2,3,3,3]\<close>,
  these are 3, 6, 1/2, 3 and 3.
\<close>
theorem calculate_metrics_most_common:
  "(df_getitem data column = Inr col \<and> 0 < col_len col \<longrightarrow>
      calculate_metrics data column =
        Inr \<lparr>num_unique = card (set (cells col)), num_total = col_len col,
             proportion_unique = real (card (set (cells col))) / real (col_len col),
             most_common = spec_most_common_cell col,
             count_most_common = count_list (cells col) (spec_most_common_cell col)\<rparr>) \<and>
   calculate_metrics test_data ''response'' =
     Inr \<lparr>num_unique = 3, num_total = 6, proportion_unique = 1 / 2,
          most_common = IntV 3, count_most_common = 3\<rparr>"
proof
  show "df_getitem data column = Inr col \<and> 0 < col_len col \<longrightarrow>
      calculate_metrics data column =
        Inr \<lparr>num_unique = card (set (cells col)), num_total = col_len col,
             proportion_unique = real (card (set (cells col))) / real (col_len col),
             most_common = spec_most_common_cell col,
             count_most_common = count_list (cells col) (spec_most_common_cell col)\<rparr>"
    using calculate_metrics_nonempty by blast
next
  have g: "df_getitem test_data ''response'' = Inr (IntCol [1, 2, 2, 3, 3, 3])"
    by (simp add: df_getitem_def test_data_def)
  have smc: "spec_most_common [1, 2, 2, 3, 3, 3::int] = 3"
    by (simp add: spec_most_common_def unique_def less_eq_prod_def)
  have c: "card (set (map IntV [1, 2, 2, 3, 3, 3])) = 3"
    unfolding card_set_cells length_remdups_card_conv[symmetric] by simp
  show "calculate_metrics test_data ''response'' =
     Inr \<lparr>num_unique = 3, num_total = 6, proportion_unique = 1 / 2,
          most_common = IntV 3, count_most_common = 3\<rparr>"
    using calculate_metrics_nonempty[OF g] c by (simp add: smc del: set_map)
qed

theorem calculate_metrics_most_common_witness:
  "df_getitem category_frame ''category'' = Inr (StrCol [''B'', ''A'', ''B'', ''A'', ''C'']) \<and>
   calculate_metrics category_frame ''category'' =
     Inr \<lparr>num_unique = 3, num_total = 5, proportion_unique = 3 / 5,
          most_common = StrV ''A'', count_most_common = 2\<rparr>"
proof -
  have g: "df_getitem category_frame ''category'' = Inr (StrCol [''B'', ''A'', ''B'', ''A'', ''C''])"
    by (simp add: df_getitem_def category_frame_def)
  have smc: "spec_most_common [''B'', ''A'', ''B'', ''A'', ''C''] = ''A''"
    by (simp add: spec_most_common_def unique_def less_eq_prod_def less_char_def less_eq_char_def)
  have c: "card (set (map StrV [''B'', ''A'', ''B'', ''A'', ''C''])) = 3"
    unfolding card_set_cells length_remdups_card_conv[symmetric] by simp
  from calculate_metrics_most_common[of category_frame "''category''" "StrCol [''B'', ''A'', ''B'', ''A'', ''C'']"] g
  have "calculate_metrics category_frame ''category'' =
        Inr \<lparr>num_unique = card (set (cells (StrCol [''B'', ''A'', ''B'', ''A'', ''C'']))), num_total = 5,
             proportion_unique = real (card (set (cells (StrCol [''B'', ''A'', ''B'', ''A'', ''C''])))) / 5,
             most_common = StrV (spec_most_common [''B'', ''A'', ''B'', ''A'', ''C'']),
             count_most_common = count_list (map StrV [''B'', ''A'', ''B'', ''A'', ''C''])
                (StrV (spec_most_common [''B'', ''A'', ''B'', ''A'', ''C'']))\<rparr>"
    by simp
  then show ?thesis using g c by (simp add: smc del: set_map)
qed

text \<open>
  Claim C10. Whenever \<^verbatim>\<open>calculate_metrics\<close> succeeds, the column has a row, and
  \<open>count_most_common * num_unique \<ge> num_total\<close> (pigeonhole: the distinct values share
  the rows, and none occurs more often than the most common one), so
  \<open>count_most_common \<ge> 1\<close>; and \<open>count_most_common \<le> num_total\<close>.
\<close>
theorem calculate_metrics_pigeonhole:
  assumes "calculate_metrics data column = Inr m"
  shows "0 < num_total m \<and> num_total m \<le> count_most_common m * num_unique m \<and>
         1 \<le> count_most_common m \<and> count_most_common m \<le> num_total m"
proof -
  from calculate_metrics_InrD[OF assms] obtain col where
    g: "df_getitem data column = Inr col" and ne: "0 < col_len col" by blast
  let ?xs = "cells col"
  let ?m = "spec_most_common_cell col"
  have len: "length ?xs = col_len col" by (rule length_cells)
  from calculate_metrics_nonempty[OF g ne] assms
  have m: "num_total m = length ?xs" "num_unique m = card (set ?xs)"
      "count_most_common m = count_list ?xs ?m"
    by (auto simp: len)
  have md: "is_mode ?xs ?m" by (rule spec_most_common_cell_mode[OF ne])
  have a: "length ?xs \<le> count_list ?xs ?m * card (set ?xs)" by (rule mode_count_pigeonhole[OF md])
  have b: "count_list ?xs ?m \<le> length ?xs" by (rule count_le_length)
  have c: "0 < length ?xs" using ne len by simp
  have d: "1 \<le> count_list ?xs ?m"
  proof (rule ccontr)
    assume "\<not> 1 \<le> count_list ?xs ?m"
    then have "count_list ?xs ?m = 0" by simp
    with a c show False by simp
  qed
  show ?thesis unfolding m using a b c d by simp
qed

theorem calculate_metrics_pigeonhole_witness:
  "calculate_metrics test_data ''response'' =
     Inr \<lparr>num_unique = 3, num_total = 6, proportion_unique = 1 / 2,
          most_common = IntV 3, count_most_common = 3\<rparr> \<and>
   (6::nat) \<le> 3 * 3 \<and> (3::nat) \<le> 6"
proof -
  have g: "df_getitem test_data ''response'' = Inr (IntCol [1, 2, 2, 3, 3, 3])"
    by (simp add: df_getitem_def test_data_def)
  have smc: "spec_most_common [1, 2, 2, 3, 3, 3::int] = 3"
    by (simp add: spec_most_common_def unique_def less_eq_prod_def)
  have c: "card (set (map IntV [1, 2, 2, 3, 3, 3])) = 3"
    unfolding card_set_cells length_remdups_card_conv[symmetric] by simp
  have r: "calculate_metrics test_data ''response'' =
     Inr \<lparr>num_unique = 3, num_total = 6, proportion_unique = 1 / 2,
          most_common = IntV 3, count_most_common = 3\<rparr>"
    using calculate_metrics_nonempty[OF g] c by (simp add: smc del: set_map)
  from calculate_metrics_pigeonhole[OF r] show ?thesis using r by simp
qed

lemma wf_frames:
  "wf_dataframe test_data" "wf_dataframe category_frame" "wf_dataframe empty_frame"
  "wf_dataframe constant_frame" "wf_dataframe uniform_frame"
  by (simp_all add: wf_dataframe_def test_data_def category_frame_def empty_frame_def
      constant_frame_def uniform_frame_def)

lemma map_of_wf_getitem:
  assumes "map_of (columns data) column \<noteq> None"
  shows "\<exists>col. df_getitem data column = Inr col"
  using assms by (auto simp: df_getitem_def split: option.splits)

text \<open>
  Claim C7, as the program has it. A column that the frame does not have gives
  \<open>KeyError\<close> (the specification's \<open>UnknownColumn\<close>), also on a frame without rows;
  a frame without rows that has the column gives \<open>ZeroDivisionError\<close>, at
  \<^verbatim>\<open>num_unique / num_total\<close> (the specification's \<open>EmptyColumn\<close>); every other
  call succeeds.
\<close>
theorem calculate_metrics_failures:
  "(map_of (columns data) column = None \<longrightarrow> calculate_metrics data column = Inl KeyError) \<and>
   (wf_dataframe data \<and> nrows data = 0 \<and> map_of (columns data) column \<noteq> None \<longrightarrow>
      calculate_metrics data column = Inl ZeroDivisionError) \<and>
   (wf_dataframe data \<and> 0 < nrows data \<and> map_of (columns data) column \<noteq> None \<longrightarrow>
      (\<exists>m. calculate_metrics data column = Inr m))"
proof (intro conjI impI)
  assume "map_of (columns data) column = None"
  then show "calculate_metrics data column = Inl KeyError" by (rule calculate_metrics_absent)
next
  assume a: "wf_dataframe data \<and> nrows data = 0 \<and> map_of (columns data) column \<noteq> None"
  then obtain col where g: "df_getitem data column = Inr col" using map_of_wf_getitem by blast
  have "col_len col = 0" using wf_col_len[OF _ g] a by simp
  then show "calculate_metrics data column = Inl ZeroDivisionError"
    by (rule calculate_metrics_empty[OF g])
next
  assume a: "wf_dataframe data \<and> 0 < nrows data \<and> map_of (columns data) column \<noteq> None"
  then obtain col where g: "df_getitem data column = Inr col" using map_of_wf_getitem by blast
  have "0 < col_len col" using wf_col_len[OF _ g] a by simp
  from calculate_metrics_nonempty[OF g this]
  show "\<exists>m. calculate_metrics data column = Inr m" by blast
qed

theorem calculate_metrics_failures_witness:
  "calculate_metrics test_data ''cluster'' = Inl KeyError \<and>
   calculate_metrics empty_frame ''response'' = Inl ZeroDivisionError \<and>
   (\<exists>m. calculate_metrics test_data ''response'' = Inr m)"
proof -
  have a: "map_of (columns test_data) ''cluster'' = None" by (simp add: test_data_def)
  have b: "wf_dataframe empty_frame \<and> nrows empty_frame = 0 \<and>
           map_of (columns empty_frame) ''response'' \<noteq> None"
    by (simp add: wf_frames) (simp add: empty_frame_def)
  have c: "wf_dataframe test_data \<and> 0 < nrows test_data \<and>
           map_of (columns test_data) ''response'' \<noteq> None"
    by (simp add: wf_frames) (simp add: test_data_def)
  from calculate_metrics_failures[of test_data "''cluster''"] a
  have 1: "calculate_metrics test_data ''cluster'' = Inl KeyError" by blast
  from calculate_metrics_failures[of empty_frame "''response''"] b
  have 2: "calculate_metrics empty_frame ''response'' = Inl ZeroDivisionError" by blast
  from calculate_metrics_failures[of test_data "''response''"] c
  have 3: "\<exists>m. calculate_metrics test_data ''response'' = Inr m" by blast
  from 1 2 3 show ?thesis by blast
qed

text \<open>
  Claim C7 as stated fails: on a frame without rows and without the column the error is
  \<open>KeyError\<close>, not the \<open>ZeroDivisionError\<close> of an empty column.
\<close>

theorem calculate_metrics_zero_rows_counterexample:
  "wf_dataframe no_response_frame \<and> nrows no_response_frame = 0 \<and>
   calculate_metrics no_response_frame ''response'' = Inl KeyError \<and>
   calculate_metrics no_response_frame ''response'' \<noteq> Inl ZeroDivisionError"
  by (simp add: no_response_frame_def wf_dataframe_def calculate_metrics_def df_getitem_def)

lemma chi2_sf_Finite: "0 < df \<Longrightarrow> chi2_sf Q (Finite x) df = Finite (Q (nat df) x)"
  by (simp add: chi2_sf_def)

lemma card_ge2_nonempty: "2 \<le> card (set (cells col)) \<Longrightarrow> 0 < col_len col"
  by (cases "cells col") (auto simp: length_cells[symmetric])

text \<open>
  Claim C1. On a column with at least two distinct values, \<^verbatim>\<open>perform_chi_square_test\<close>
  returns the statistic of the specification, \<^const>\<open>spec_statistic\<close> (the sum over the
  distinct observed values of \<open>(count - expected)\<^sup>2 / expected\<close>, with
  \<open>expected = rows / distinct values\<close>), and the p-value that the chi-square distribution
  with one degree of freedom less than distinct values gives it. When all distinct values
  occur equally often the statistic is 0, and the p-value is the survival function at 0:
  that is 1.
\<close>
theorem perform_chi_square_test_statistic:
  assumes wf: "wf_dataframe data" and g: "df_getitem data column = Inr col"
    and k: "2 \<le> card (set (cells col))"
  shows "perform_chi_square_test Q data column =
      Inr (Finite (spec_statistic (cells col)),
           Finite (Q (card (set (cells col)) - 1) (spec_statistic (cells col)))) \<and>
    ((\<forall>v\<in>set (cells col). \<forall>w\<in>set (cells col).
         count_list (cells col) v = count_list (cells col) w) \<longrightarrow>
       perform_chi_square_test Q data column =
         Inr (Finite 0, Finite (Q (card (set (cells col)) - 1) 0)) \<and>
       (Q (card (set (cells col)) - 1) 0 = 1 \<longrightarrow>
          perform_chi_square_test Q data column = Inr (Finite 0, Finite 1)))"
proof -
  let ?xs = "cells col"
  have ne: "0 < col_len col" by (rule card_ge2_nonempty[OF k])
  have df: "0 < int (card (set ?xs)) - 1" using k by simp
  have n: "nat (int (card (set ?xs)) - 1) = card (set ?xs) - 1" by simp
  have r: "perform_chi_square_test Q data column =
      Inr (Finite (spec_statistic ?xs), Finite (Q (card (set ?xs) - 1) (spec_statistic ?xs)))"
    unfolding chi_square_nonempty[OF wf g ne] chi2_sf_Finite[OF df] n by (rule refl)
  have u: "(\<forall>v\<in>set ?xs. \<forall>w\<in>set ?xs. count_list ?xs v = count_list ?xs w) \<longrightarrow>
       spec_statistic ?xs = 0"
    using spec_statistic_equal_counts by blast
  show ?thesis
  proof (intro conjI impI)
    show "perform_chi_square_test Q data column =
      Inr (Finite (spec_statistic ?xs), Finite (Q (card (set ?xs) - 1) (spec_statistic ?xs)))"
      by (rule r)
  next
    assume e: "\<forall>v\<in>set ?xs. \<forall>w\<in>set ?xs. count_list ?xs v = count_list ?xs w"
    have z: "spec_statistic ?xs = 0" using u e by blast
    show "perform_chi_square_test Q data column = Inr (Finite 0, Finite (Q (card (set ?xs) - 1) 0))"
      using r unfolding z .
  next
    assume e: "\<forall>v\<in>set ?xs. \<forall>w\<in>set ?xs. count_list ?xs v = count_list ?xs w"
      and q: "Q (card (set ?xs) - 1) 0 = 1"
    have z: "spec_statistic ?xs = 0" using u e by blast
    show "perform_chi_square_test Q data column = Inr (Finite 0, Finite 1)"
      using r unfolding z q .
  qed
qed

theorem perform_chi_square_test_statistic_witness:
  "wf_dataframe uniform_frame \<and>
   df_getitem uniform_frame ''response'' = Inr (IntCol [1, 2, 3, 1, 2, 3]) \<and>
   perform_chi_square_test Q_two uniform_frame ''response'' = Inr (Finite 0, Finite 1)"
proof -
  let ?col = "IntCol [1, 2, 3, 1, 2, 3]"
  have g: "df_getitem uniform_frame ''response'' = Inr ?col"
    by (simp add: df_getitem_def uniform_frame_def)
  have c: "card (set (cells ?col)) = 3"
    unfolding cells.simps card_set_cells length_remdups_card_conv[symmetric] by simp
  have k: "2 \<le> card (set (cells ?col))" unfolding c by simp
  have eq: "\<forall>v\<in>set (cells ?col). \<forall>w\<in>set (cells ?col).
       count_list (cells ?col) v = count_list (cells ?col) w" by simp
  have q: "Q_two (card (set (cells ?col)) - 1) 0 = 1" by (simp add: Q_two_def)
  from perform_chi_square_test_statistic[OF wf_frames(5) g k, of Q_two] eq q
  have "perform_chi_square_test Q_two uniform_frame ''response'' = Inr (Finite 0, Finite 1)"
    by blast
  with g wf_frames(5) show ?thesis by blast
qed

lemma chi_square_single:
  assumes wf: "wf_dataframe data" and g: "df_getitem data column = Inr col"
    and k: "card (set (cells col)) = 1"
  shows "perform_chi_square_test Q data column = Inr (Finite 0, NaN)"
proof -
  let ?xs = "cells col"
  have "cells col \<noteq> []" using k by auto
  then have ne: "0 < col_len col" by (simp add: length_cells[symmetric])
  from k obtain a where a: "set ?xs = {a}" by (auto simp: card_1_singleton_iff)
  have "\<forall>v\<in>set ?xs. \<forall>w\<in>set ?xs. count_list ?xs v = count_list ?xs w" unfolding a by simp
  then have s: "spec_statistic ?xs = 0" by (rule spec_statistic_equal_counts)
  have d: "chi2_sf Q (Finite 0) (int 1 - 1) = NaN" by (simp add: chi2_sf_def)
  have "perform_chi_square_test Q data column =
      Inr (Finite (spec_statistic ?xs), chi2_sf Q (Finite (spec_statistic ?xs)) (int (card (set ?xs)) - 1))"
    by (rule chi_square_nonempty[OF wf g ne])
  then show ?thesis by (simp only: s k d)
qed

text \<open>
  Claim C8, as the program has it. On a frame without rows the test fails with
  \<open>ZeroDivisionError\<close> at \<^verbatim>\<open>len(data) / len(observed)\<close> (the specification's
  \<open>DegenerateInput\<close>). On a column with one distinct value it does not fail: it returns
  the statistic 0 and, the distribution having no degree of freedom, nan as the p-value.
  With two distinct values or more it returns a non-negative statistic and its p-value.
\<close>
theorem perform_chi_square_test_degenerate:
  assumes wf: "wf_dataframe data" and g: "df_getitem data column = Inr col"
  shows "(nrows data = 0 \<longrightarrow> perform_chi_square_test Q data column = Inl ZeroDivisionError) \<and>
     (card (set (cells col)) = 1 \<longrightarrow>
        perform_chi_square_test Q data column = Inr (Finite 0, NaN)) \<and>
     (2 \<le> card (set (cells col)) \<longrightarrow>
        0 \<le> spec_statistic (cells col) \<and>
        perform_chi_square_test Q data column =
          Inr (Finite (spec_statistic (cells col)),
               Finite (Q (card (set (cells col)) - 1) (spec_statistic (cells col)))))"
proof (intro conjI impI)
  assume "nrows data = 0"
  then have "col_len col = 0" using wf_col_len[OF wf g] by simp
  then show "perform_chi_square_test Q data column = Inl ZeroDivisionError"
    by (rule chi_square_empty[OF g])
next
  assume "card (set (cells col)) = 1"
  then show "perform_chi_square_test Q data column = Inr (Finite 0, NaN)"
    by (rule chi_square_single[OF wf g])
next
  assume "2 \<le> card (set (cells col))"
  show "0 \<le> spec_statistic (cells col)" by (rule spec_statistic_nonneg)
next
  assume k: "2 \<le> card (set (cells col))"
  have ne: "0 < col_len col" by (rule card_ge2_nonempty[OF k])
  have df: "0 < int (card (set (cells col))) - 1" using k by simp
  have n: "nat (int (card (set (cells col))) - 1) = card (set (cells col)) - 1" by simp
  show "perform_chi_square_test Q data column =
          Inr (Finite (spec_statistic (cells col)),
               Finite (Q (card (set (cells col)) - 1) (spec_statistic (cells col))))"
    unfolding chi_square_nonempty[OF wf g ne] chi2_sf_Finite[OF df] n by (rule refl)
qed

theorem perform_chi_square_test_degenerate_witness:
  "perform_chi_square_test Q_two empty_frame ''response'' = Inl ZeroDivisionError \<and>
   perform_chi_square_test Q_two constant_frame ''response'' = Inr (Finite 0, NaN) \<and>
   perform_chi_square_test Q_two test_data ''response'' = Inr (Finite 1, Finite (exp (- 1 / 2)))"
proof -
  have g1: "df_getitem empty_frame ''response'' = Inr (IntCol [])"
    by (simp add: df_getitem_def empty_frame_def)
  have g2: "df_getitem constant_frame ''response'' = Inr (IntCol [5, 5, 5])"
    by (simp add: df_getitem_def constant_frame_def)
  have g3: "df_getitem test_data ''response'' = Inr (IntCol [1, 2, 2, 3, 3, 3])"
    by (simp add: df_getitem_def test_data_def)
  have n1: "nrows empty_frame = 0" by (simp add: empty_frame_def)
  have c2: "card (set (cells (IntCol [5, 5, 5]))) = 1" by simp
  have c3: "card (set (cells (IntCol [1, 2, 2, 3, 3, 3]))) = 3"
    unfolding cells.simps card_set_cells length_remdups_card_conv[symmetric] by simp
  have vc3: "map snd (value_counts (cells (IntCol [1, 2, 2, 3, 3, 3]))) = [3, 2, 1]"
    by (simp add: value_counts_def unique_def)
  have s3: "spec_statistic (cells (IntCol [1, 2, 2, 3, 3, 3])) = 1"
    unfolding spec_statistic_alt vc3 c3 by (simp add: power2_eq_square)
  from perform_chi_square_test_degenerate[OF wf_frames(3) g1, of Q_two] n1
  have 1: "perform_chi_square_test Q_two empty_frame ''response'' = Inl ZeroDivisionError" by blast
  from perform_chi_square_test_degenerate[OF wf_frames(4) g2, of Q_two] c2
  have 2: "perform_chi_square_test Q_two constant_frame ''response'' = Inr (Finite 0, NaN)" by blast
  from perform_chi_square_test_degenerate[OF wf_frames(1) g3, of Q_two] c3
  have "perform_chi_square_test Q_two test_data ''response'' =
      Inr (Finite (spec_statistic (cells (IntCol [1, 2, 2, 3, 3, 3]))),
           Finite (Q_two (card (set (cells (IntCol [1, 2, 2, 3, 3, 3]))) - 1)
              (spec_statistic (cells (IntCol [1, 2, 2, 3, 3, 3])))))"
    by simp
  then have 3: "perform_chi_square_test Q_two test_data ''response'' =
      Inr (Finite 1, Finite (exp (- 1 / 2)))"
    unfolding s3 c3 Q_two_def by simp
  from 1 2 3 show ?thesis by blast
qed

text \<open>
  Claim C8 as stated fails: on the column \<open>[5,5,5]\<close>, with one distinct value, the test
  returns a pair and raises nothing.
\<close>

theorem perform_chi_square_test_single_value_counterexample:
  "wf_dataframe constant_frame \<and>
   card (set (cells (IntCol [5, 5, 5]))) = 1 \<and>
   df_getitem constant_frame ''response'' = Inr (IntCol [5, 5, 5]) \<and>
   perform_chi_square_test Q_two constant_frame ''response'' = Inr (Finite 0, NaN)"
proof -
  have g2: "df_getitem constant_frame ''response'' = Inr (IntCol [5, 5, 5])"
    by (simp add: df_getitem_def constant_frame_def)
  have c2: "card (set (cells (IntCol [5, 5, 5]))) = 1" by simp
  from chi_square_single[OF wf_frames(4) g2 c2, of Q_two] g2 c2 wf_frames(4)
  show ?thesis by blast
qed

section \<open>Facts about the generator\<close>

lemma unat_drop_bit_bound:
  fixes w :: "32 word"
  assumes "n \<le> 32"
  shows "unat (drop_bit n w) < 2 ^ (32 - n)"
proof -
  have "unat w < 2 ^ 32" using unsigned_less[of w] by simp
  also have "(2::nat) ^ 32 = 2 ^ (32 - n) * 2 ^ n"
    using assms by (simp add: power_add[symmetric])
  finally have "unat w div 2 ^ n < 2 ^ (32 - n)"
    by (simp add: less_mult_imp_div_less)
  moreover have "unat (drop_bit n w) = drop_bit n (unat w)" by (rule unat_drop_bit_eq)
  moreover have "drop_bit n (unat w) = unat w div 2 ^ n" by (rule drop_bit_eq_div)
  ultimately show ?thesis by (simp only:)
qed

lemma next_double_range:
  "0 \<le> fst (next_double g) \<and> fst (next_double g) < 1"
proof -
  define a where "a = unat (drop_bit 5 (g 0))"
  define b where "b = unat (drop_bit 6 (g (Suc 0)))"
  have a: "a < 2 ^ 27" using unat_drop_bit_bound[of 5 "g 0"] by (simp add: a_def)
  have b: "b < 2 ^ 26" using unat_drop_bit_bound[of 6 "g (Suc 0)"] by (simp add: b_def)
  have "a * 67108864 + b < 9007199254740992" using a b by simp
  then have "real (a * 67108864 + b) < real 9007199254740992"
    by (simp only: of_nat_less_iff)
  then have lt: "(real a * 67108864 + real b) / 9007199254740992 < 1" by simp
  have ge: "0 \<le> (real a * 67108864 + real b) / 9007199254740992" by simp
  have "fst (next_double g) = (real a * 67108864 + real b) / 9007199254740992"
    unfolding a_def b_def by (simp add: next_double_def next_uint32_def)
  with lt ge show ?thesis by simp
qed

lemma random_sample_props:
  "length (fst (random_sample n g)) = n \<and>
   (\<forall>u\<in>set (fst (random_sample n g)). 0 \<le> u \<and> u < 1)"
proof (induction n arbitrary: g)
  case 0
  show ?case by simp
next
  case (Suc n)
  obtain u g1 where d: "next_double g = (u, g1)" by (cases "next_double g")
  obtain us g2 where r: "random_sample n g1 = (us, g2)" by (cases "random_sample n g1")
  have u: "0 \<le> u \<and> u < 1" using next_double_range[of g] d by simp
  have us: "length us = n \<and> (\<forall>u\<in>set us. 0 \<le> u \<and> u < 1)" using Suc[of g1] r by simp
  show ?case using u us by (simp add: d r)
qed

lemma searchsorted_right_less:
  assumes "cdf \<noteq> []" and "u < last cdf"
  shows "searchsorted_right cdf u < length cdf"
proof -
  have "last cdf \<in> set cdf" using assms(1) by simp
  moreover have "\<not> last cdf \<le> u" using assms(2) by simp
  ultimately show ?thesis unfolding searchsorted_right_def by (rule length_filter_less)
qed

lemma take_indices_ok:
  assumes "\<forall>i\<in>set idx. i < length a"
  shows "take_indices a idx = Inr (map (\<lambda>i. a ! i) idx)"
  using assms by (simp add: take_indices_def list_all_iff)

lemma map_nth_subset:
  assumes "\<forall>i\<in>set idx. i < length a"
  shows "set (map (\<lambda>i. a ! i) idx) \<subseteq> set a"
  using assms by auto

lemma weights_ok:
  "length response_weights = length response_values"
  "\<not> list_ex (\<lambda>x. x < 0) response_weights"
  "sum_list response_weights = 1"
  "cumsum response_weights = [1 / 10, 1 / 4, 3 / 10, 2 / 5, 3 / 5, 7 / 10, 4 / 5, 9 / 10, 19 / 20, 1]"
  by (simp_all add: response_weights_def response_values_def cumsum_def)

lemma choice_p_responses:
  assumes "0 \<le> n"
  shows "\<exists>rs g1. choice_p g response_values n response_weights = Inr (rs, g1) \<and>
           length rs = nat n \<and> set rs \<subseteq> set response_values"
proof -
  let ?cdf = "map (\<lambda>c. c / last (cumsum response_weights)) (cumsum response_weights)"
  have cdf: "?cdf = [1 / 10, 1 / 4, 3 / 10, 2 / 5, 3 / 5, 7 / 10, 4 / 5, 9 / 10, 19 / 20, 1]"
    unfolding weights_ok(4) by simp
  obtain us g1 where r: "random_sample (nat n) g = (us, g1)" by (cases "random_sample (nat n) g")
  have us: "length us = nat n" "\<forall>u\<in>set us. 0 \<le> u \<and> u < 1"
    using random_sample_props[of "nat n" g] r by simp_all
  let ?idx = "map (searchsorted_right ?cdf) us"
  have idx: "\<forall>i\<in>set ?idx. i < length response_values"
  proof
    fix i assume "i \<in> set ?idx"
    then obtain u where u: "u \<in> set us" "i = searchsorted_right ?cdf u" by auto
    have "u < last ?cdf" using us(2) u(1) unfolding cdf by simp
    moreover have "?cdf \<noteq> []" unfolding cdf by simp
    ultimately have "i < length ?cdf" unfolding u(2) by (rule searchsorted_right_less[rotated])
    then show "i < length response_values" unfolding cdf by (simp add: response_values_def)
  qed
  have t: "take_indices response_values ?idx = Inr (map (\<lambda>i. response_values ! i) ?idx)"
    by (rule take_indices_ok[OF idx])
  have ne: "response_values \<noteq> []" by (simp add: response_values_def)
  have "choice_p g response_values n response_weights =
          Inr (map (\<lambda>i. response_values ! i) ?idx, g1)"
    unfolding choice_p_def Let_def using assms ne weights_ok(1,2,3) r t by simp
  moreover have "length (map (\<lambda>i. response_values ! i) ?idx) = nat n" using us(1) by simp
  moreover have "set (map (\<lambda>i. response_values ! i) ?idx) \<subseteq> set response_values"
    by (rule map_nth_subset[OF idx])
  ultimately show ?thesis by blast
qed

lemma gen_mask_3: "gen_mask 3 = 3"
  by (simp add: gen_mask_def Let_def)

lemma masked_3:
  "bounded_masked_uint32 3 3 g = Some (g 0 AND 3, \<lambda>i. g (Suc i))"
proof -
  have "g 0 AND 3 \<le> 3" by (rule word_and_le1)
  then have "\<not> 3 < (g 0 AND 3)" by simp
  then show ?thesis by (subst bounded_masked_uint32.simps) simp
qed

lemma unat_and_3: "unat ((w::32 word) AND 3) < 4"
proof -
  have "w AND 3 \<le> 3" by (rule word_and_le1)
  then have "unat (w AND 3) \<le> unat (3::32 word)" by (simp add: word_le_nat_alt)
  then show ?thesis by simp
qed

lemma bounded_fill_3:
  "\<exists>vs g1. bounded_fill n 3 g = Some (vs, g1) \<and> length vs = n \<and> (\<forall>v\<in>set vs. v < 4)"
proof (induction n arbitrary: g)
  case 0
  show ?case by simp
next
  case (Suc n)
  from Suc[of "\<lambda>i. g (Suc i)"] obtain vs g1 where
    r: "bounded_fill n 3 (\<lambda>i. g (Suc i)) = Some (vs, g1)" "length vs = n" "\<forall>v\<in>set vs. v < 4"
    by blast
  show ?case using r unat_and_3[of "g 0"] by (simp add: gen_mask_3 masked_3)
qed

lemma choice_categories:
  assumes "0 \<le> n"
  shows "\<exists>cs g1. choice g category_values n = Some (Inr (cs, g1)) \<and>
           length cs = nat n \<and> set cs \<subseteq> set category_values"
proof -
  from bounded_fill_3[of "nat n" g] obtain vs g1 where
    r: "bounded_fill (nat n) 3 g = Some (vs, g1)" "length vs = nat n" "\<forall>v\<in>set vs. v < 4"
    by blast
  have len: "length category_values = 4" by (simp add: category_values_def)
  have ri: "randint0 (length category_values) (nat n) g = Some (vs, g1)"
    unfolding len randint0_def using r(1) by simp
  have idx: "\<forall>i\<in>set vs. i < length category_values" using r(3) len by simp
  have t: "take_indices category_values vs = Inr (map (\<lambda>i. category_values ! i) vs)"
    by (rule take_indices_ok[OF idx])
  have ne: "category_values \<noteq> []" by (simp add: category_values_def)
  have "choice g category_values n = Some (Inr (map (\<lambda>i. category_values ! i) vs, g1))"
    unfolding choice_def using assms ne ri t by simp
  moreover have "length (map (\<lambda>i. category_values ! i) vs) = nat n" using r(2) by simp
  moreover have "set (map (\<lambda>i. category_values ! i) vs) \<subseteq> set category_values"
    by (rule map_nth_subset[OF idx])
  ultimately show ?thesis by blast
qed

lemma epoch_2024_value: "epoch_2024 = 1704067200 * 10 ^ 9"
  by (simp add: epoch_2024_def days_from_civil_def minute_ns_def Let_def)

lemma date_range_cases:
  assumes "0 \<le> n"
  shows "date_range tmax start n =
     (if 0 < n \<and> tmax < start + (n - 1) * minute_ns then Inl ValueError
      else Inr (map (\<lambda>i. start + int i * minute_ns) [0..<nat n]))"
  using assms by (simp add: date_range_def)

lemma date_range_InrD:
  assumes "date_range tmax start n = Inr ts"
  shows "ts = map (\<lambda>i. start + int i * minute_ns) [0..<nat n]"
  using assms by (simp add: date_range_def split: if_splits)

lemma DataFrame_three:
  assumes "length rs = k" "length cs = k" "length ts = k"
  shows "DataFrame [(''response'', IntCol rs), (''category'', StrCol cs), (''timestamp'', TimeCol ts)]
       = Inr \<lparr>nrows = k, columns = [(''response'', IntCol rs), (''category'', StrCol cs),
                                     (''timestamp'', TimeCol ts)]\<rparr>"
  using assms by (simp add: DataFrame_def)

text \<open>
  What a call with \<open>0 \<le> n\<close> comes to: the draws succeed, and then the timestamps are
  out of range, or the file cannot be written, or the frame is saved and returned.
\<close>
lemma generate_outcome:
  assumes n: "0 \<le> n"
  shows "\<exists>rs cs g2.
     length rs = nat n \<and> set rs \<subseteq> set response_values \<and>
     length cs = nat n \<and> set cs \<subseteq> set category_values \<and>
     generate_random_dataset mt w filename n =
       (if 0 < n \<and> timestamp_max w < epoch_2024 + (n - 1) * minute_ns
        then Some (Inl ValueError, w\<lparr>global_rng := g2\<rparr>)
        else if \<not> writable w filename then Some (Inl OSError, w\<lparr>global_rng := g2\<rparr>)
        else Some (Inr \<lparr>nrows = nat n,
                  columns = [(''response'', IntCol rs), (''category'', StrCol cs),
                             (''timestamp'',
                              TimeCol (map (\<lambda>i. epoch_2024 + int i * minute_ns) [0..<nat n]))]\<rparr>,
             w\<lparr>global_rng := g2,
               files := (files w)(filename \<mapsto>
                 \<lparr>nrows = nat n,
                  columns = [(''response'', IntCol rs), (''category'', StrCol cs),
                             (''timestamp'',
                              TimeCol (map (\<lambda>i. epoch_2024 + int i * minute_ns) [0..<nat n]))]\<rparr>),
               stdout := stdout w @ [''Dataset saved to: '' @ filename]\<rparr>))"
proof -
  from choice_p_responses[OF n, of "mt 42"] obtain rs g1 where
    r: "choice_p (mt 42) response_values n response_weights = Inr (rs, g1)"
       "length rs = nat n" "set rs \<subseteq> set response_values" by blast
  from choice_categories[OF n, of g1] obtain cs g2 where
    c: "choice g1 category_values n = Some (Inr (cs, g2))"
       "length cs = nat n" "set cs \<subseteq> set category_values" by blast
  let ?ts = "map (\<lambda>i. epoch_2024 + int i * minute_ns) [0..<nat n]"
  note d = date_range_cases[OF n, of "timestamp_max w" epoch_2024]
  have f: "DataFrame [(''response'', IntCol rs), (''category'', StrCol cs), (''timestamp'', TimeCol ?ts)]
       = Inr \<lparr>nrows = nat n, columns = [(''response'', IntCol rs), (''category'', StrCol cs),
                                     (''timestamp'', TimeCol ?ts)]\<rparr>"
    by (rule DataFrame_three) (simp_all add: r(2) c(2))
  have "generate_random_dataset mt w filename n =
       (if 0 < n \<and> timestamp_max w < epoch_2024 + (n - 1) * minute_ns
        then Some (Inl ValueError, w\<lparr>global_rng := g2\<rparr>)
        else if \<not> writable w filename then Some (Inl OSError, w\<lparr>global_rng := g2\<rparr>)
        else Some (Inr \<lparr>nrows = nat n,
                  columns = [(''response'', IntCol rs), (''category'', StrCol cs),
                             (''timestamp'', TimeCol ?ts)]\<rparr>,
             w\<lparr>global_rng := g2,
               files := (files w)(filename \<mapsto>
                 \<lparr>nrows = nat n,
                  columns = [(''response'', IntCol rs), (''category'', StrCol cs),
                             (''timestamp'', TimeCol ?ts)]\<rparr>),
               stdout := stdout w @ [''Dataset saved to: '' @ filename]\<rparr>))"
    by (simp add: generate_random_dataset_def generate_with_def Let_def r(1) c(1) d f to_csv_def)
  with r(2,3) c(2,3) show ?thesis by blast
qed

lemma generate_ok:
  assumes n: "0 \<le> n"
    and wr: "writable w filename"
    and b: "n = 0 \<or> epoch_2024 + (n - 1) * minute_ns \<le> timestamp_max w"
  shows "\<exists>rs cs g2.
     generate_random_dataset mt w filename n =
       Some (Inr \<lparr>nrows = nat n,
                  columns = [(''response'', IntCol rs), (''category'', StrCol cs),
                             (''timestamp'',
                              TimeCol (map (\<lambda>i. epoch_2024 + int i * minute_ns) [0..<nat n]))]\<rparr>,
             w\<lparr>global_rng := g2,
               files := (files w)(filename \<mapsto>
                 \<lparr>nrows = nat n,
                  columns = [(''response'', IntCol rs), (''category'', StrCol cs),
                             (''timestamp'',
                              TimeCol (map (\<lambda>i. epoch_2024 + int i * minute_ns) [0..<nat n]))]\<rparr>),
               stdout := stdout w @ [''Dataset saved to: '' @ filename]\<rparr>) \<and>
     length rs = nat n \<and> set rs \<subseteq> set response_values \<and>
     length cs = nat n \<and> set cs \<subseteq> set category_values"
proof -
  have nb: "\<not> (0 < n \<and> timestamp_max w < epoch_2024 + (n - 1) * minute_ns)"
    using b by auto
  from generate_outcome[OF n, of mt w filename] obtain rs cs g2 where
    p: "length rs = nat n" "set rs \<subseteq> set response_values"
       "length cs = nat n" "set cs \<subseteq> set category_values"
    and g: "generate_random_dataset mt w filename n =
       (if 0 < n \<and> timestamp_max w < epoch_2024 + (n - 1) * minute_ns
        then Some (Inl ValueError, w\<lparr>global_rng := g2\<rparr>)
        else if \<not> writable w filename then Some (Inl OSError, w\<lparr>global_rng := g2\<rparr>)
        else Some (Inr \<lparr>nrows = nat n,
                  columns = [(''response'', IntCol rs), (''category'', StrCol cs),
                             (''timestamp'',
                              TimeCol (map (\<lambda>i. epoch_2024 + int i * minute_ns) [0..<nat n]))]\<rparr>,
             w\<lparr>global_rng := g2,
               files := (files w)(filename \<mapsto>
                 \<lparr>nrows = nat n,
                  columns = [(''response'', IntCol rs), (''category'', StrCol cs),
                             (''timestamp'',
                              TimeCol (map (\<lambda>i. epoch_2024 + int i * minute_ns) [0..<nat n]))]\<rparr>),
               stdout := stdout w @ [''Dataset saved to: '' @ filename]\<rparr>))"
    by blast
  have "generate_random_dataset mt w filename n =
       Some (Inr \<lparr>nrows = nat n,
                  columns = [(''response'', IntCol rs), (''category'', StrCol cs),
                             (''timestamp'',
                              TimeCol (map (\<lambda>i. epoch_2024 + int i * minute_ns) [0..<nat n]))]\<rparr>,
             w\<lparr>global_rng := g2,
               files := (files w)(filename \<mapsto>
                 \<lparr>nrows = nat n,
                  columns = [(''response'', IntCol rs), (''category'', StrCol cs),
                             (''timestamp'',
                              TimeCol (map (\<lambda>i. epoch_2024 + int i * minute_ns) [0..<nat n]))]\<rparr>),
               stdout := stdout w @ [''Dataset saved to: '' @ filename]\<rparr>)"
    unfolding g using nb wr by simp
  with p show ?thesis by blast
qed

lemma generate_raises:
  assumes n: "0 \<le> n"
  shows "(0 < n \<and> timestamp_max w < epoch_2024 + (n - 1) * minute_ns \<longrightarrow>
            map_option fst (generate_random_dataset mt w filename n) = Some (Inl ValueError)) \<and>
         (\<not> (0 < n \<and> timestamp_max w < epoch_2024 + (n - 1) * minute_ns) \<and>
          \<not> writable w filename \<longrightarrow>
            map_option fst (generate_random_dataset mt w filename n) = Some (Inl OSError) \<and>
            map_option (\<lambda>r. (files (snd r), stdout (snd r)))
              (generate_random_dataset mt w filename n) = Some (files w, stdout w))"
proof -
  from generate_outcome[OF n, of mt w filename] obtain rs cs g2 where
    g: "generate_random_dataset mt w filename n =
       (if 0 < n \<and> timestamp_max w < epoch_2024 + (n - 1) * minute_ns
        then Some (Inl ValueError, w\<lparr>global_rng := g2\<rparr>)
        else if \<not> writable w filename then Some (Inl OSError, w\<lparr>global_rng := g2\<rparr>)
        else Some (Inr \<lparr>nrows = nat n,
                  columns = [(''response'', IntCol rs), (''category'', StrCol cs),
                             (''timestamp'',
                              TimeCol (map (\<lambda>i. epoch_2024 + int i * minute_ns) [0..<nat n]))]\<rparr>,
             w\<lparr>global_rng := g2,
               files := (files w)(filename \<mapsto>
                 \<lparr>nrows = nat n,
                  columns = [(''response'', IntCol rs), (''category'', StrCol cs),
                             (''timestamp'',
                              TimeCol (map (\<lambda>i. epoch_2024 + int i * minute_ns) [0..<nat n]))]\<rparr>),
               stdout := stdout w @ [''Dataset saved to: '' @ filename]\<rparr>))"
    by blast
  show ?thesis unfolding g by simp
qed

lemma in_response_values: "r \<in> set response_values \<Longrightarrow> 1 \<le> r \<and> r \<le> 10"
  by (auto simp: response_values_def)

lemma in_category_values: "c \<in> set category_values \<Longrightarrow> c \<in> {''A'', ''B'', ''C'', ''D''}"
  by (simp add: category_values_def)

lemma demo_world_writable: "writable demo_world ''data.csv''"
  by (simp add: demo_world_def)

lemma demo_world_three_rows: "epoch_2024 + (3 - 1) * minute_ns \<le> timestamp_max demo_world"
  by (simp add: demo_world_def epoch_2024_value minute_ns_def)

text \<open>
  Claim C2, as the program has it. For every \<open>num_rows > 0\<close> whose last timestamp,
  2024-01-01T00:00 plus \<open>num_rows - 1\<close> minutes, pandas holds, and every file name that
  can be written, whatever the generator's words and the rest of the world,
  \<^verbatim>\<open>generate_random_dataset\<close> returns a frame of \<open>num_rows\<close> rows with the
  columns \<open>response\<close>, \<open>category\<close> and \<open>timestamp\<close>: every response is an integer
  from 1 to 10, every category one of A, B, C, D, and the timestamp of row \<open>i\<close> is
  2024-01-01T00:00 (1704067200 seconds after 1970-01-01T00:00) plus \<open>i\<close> minutes.
  Without the two conditions the call raises: see the counterexample below.
\<close>
theorem generate_random_dataset_rows:
  assumes "0 < num_rows"
    and "writable w filename"
    and "epoch_2024 + (num_rows - 1) * minute_ns \<le> timestamp_max w"
  shows "\<exists>responses categories w'.
     generate_random_dataset mt w filename num_rows =
       Some (Inr \<lparr>nrows = nat num_rows,
                  columns = [(''response'', IntCol responses), (''category'', StrCol categories),
                             (''timestamp'',
                              TimeCol (map (\<lambda>i. epoch_2024 + int i * minute_ns)
                                         [0..<nat num_rows]))]\<rparr>, w') \<and>
     length responses = nat num_rows \<and> (\<forall>r\<in>set responses. 1 \<le> r \<and> r \<le> 10) \<and>
     length categories = nat num_rows \<and>
     (\<forall>c\<in>set categories. c \<in> {''A'', ''B'', ''C'', ''D''}) \<and>
     epoch_2024 = 1704067200 * 10 ^ 9 \<and> minute_ns = 60 * 10 ^ 9"
proof -
  have n: "0 \<le> num_rows" using assms(1) by simp
  have b: "num_rows = 0 \<or> epoch_2024 + (num_rows - 1) * minute_ns \<le> timestamp_max w"
    using assms(3) by (rule disjI2)
  from generate_ok[OF n assms(2) b, of mt] obtain rs cs g2 where
    g: "generate_random_dataset mt w filename num_rows =
       Some (Inr \<lparr>nrows = nat num_rows,
                  columns = [(''response'', IntCol rs), (''category'', StrCol cs),
                             (''timestamp'',
                              TimeCol (map (\<lambda>i. epoch_2024 + int i * minute_ns) [0..<nat num_rows]))]\<rparr>,
             w\<lparr>global_rng := g2,
               files := (files w)(filename \<mapsto>
                 \<lparr>nrows = nat num_rows,
                  columns = [(''response'', IntCol rs), (''category'', StrCol cs),
                             (''timestamp'',
                              TimeCol (map (\<lambda>i. epoch_2024 + int i * minute_ns) [0..<nat num_rows]))]\<rparr>),
               stdout := stdout w @ [''Dataset saved to: '' @ filename]\<rparr>)"
    and p: "length rs = nat num_rows" "set rs \<subseteq> set response_values"
       "length cs = nat num_rows" "set cs \<subseteq> set category_values" by blast
  have r: "\<forall>r\<in>set rs. 1 \<le> r \<and> r \<le> 10" using p(2) in_response_values by blast
  have c: "\<forall>c\<in>set cs. c \<in> {''A'', ''B'', ''C'', ''D''}" using p(4) in_category_values by blast
  have m: "minute_ns = 60 * 10 ^ 9" by (simp add: minute_ns_def)
  show ?thesis using g p(1,3) r c epoch_2024_value m by blast
qed

theorem generate_random_dataset_rows_witness:
  "\<exists>responses categories w'.
     generate_random_dataset demo_mt demo_world ''data.csv'' 3 =
       Some (Inr \<lparr>nrows = 3,
                  columns = [(''response'', IntCol responses), (''category'', StrCol categories),
                             (''timestamp'',
                              TimeCol [1704067200000000000, 1704067260000000000,
                                       1704067320000000000])]\<rparr>, w') \<and>
     length responses = 3 \<and> (\<forall>r\<in>set responses. 1 \<le> r \<and> r \<le> 10) \<and>
     length categories = 3 \<and>
     (\<forall>c\<in>set categories. c \<in> {''A'', ''B'', ''C'', ''D''}) \<and>
     epoch_2024 = 1704067200 * 10 ^ 9 \<and> minute_ns = 60 * 10 ^ 9"
proof -
  have h: "(0::int) < 3" by simp
  have n: "nat 3 = 3" by simp
  have u3: "[0..<3] = [0, 1, 2]" by (simp add: numeral_3_eq_3)
  have ts: "map (\<lambda>i. epoch_2024 + int i * minute_ns) [0..<3] =
      [1704067200000000000, 1704067260000000000, 1704067320000000000]"
    unfolding u3 by (simp add: epoch_2024_def days_from_civil_def minute_ns_def Let_def)
  have ex: "\<exists>responses categories w'.
     generate_random_dataset demo_mt demo_world ''data.csv'' 3 =
       Some (Inr \<lparr>nrows = 3,
                  columns = [(''response'', IntCol responses), (''category'', StrCol categories),
                             (''timestamp'',
                              TimeCol (map (\<lambda>i. epoch_2024 + int i * minute_ns) [0..<3]))]\<rparr>, w') \<and>
     length responses = 3 \<and> (\<forall>r\<in>set responses. 1 \<le> r \<and> r \<le> 10) \<and>
     length categories = 3 \<and>
     (\<forall>c\<in>set categories. c \<in> {''A'', ''B'', ''C'', ''D''}) \<and>
     epoch_2024 = 1704067200 * 10 ^ 9 \<and> minute_ns = 60 * 10 ^ 9"
    using generate_random_dataset_rows[OF h demo_world_writable demo_world_three_rows, of demo_mt]
    unfolding n .
  show ?thesis using ex unfolding ts .
qed

text \<open>
  Claim C2 as stated fails. The program saves the frame before it returns it, so a
  file name that cannot be opened (the empty one, here) ends the call with an error
  after the frame is built: nothing is returned, written or printed. And a row count
  whose last minute is after the largest timestamp is refused by \<^verbatim>\<open>pd.date_range\<close>:
  with the 64-bit nanoseconds of pandas 2, which end at 2262-04-11T23:47, the
  200000000 minutes from 2024 that end in the year 2404 are.
\<close>

theorem generate_random_dataset_raises_counterexample:
  "map_option fst (generate_random_dataset demo_mt demo_world '''' 3) = Some (Inl OSError) \<and>
   map_option (\<lambda>r. (files (snd r), stdout (snd r)))
     (generate_random_dataset demo_mt demo_world '''' 3) = Some (Map.empty, []) \<and>
   map_option fst (generate_random_dataset demo_mt demo_world ''data.csv'' 200000000) =
     Some (Inl ValueError)"
proof -
  have n3: "(0::int) \<le> 3" by simp
  have nb: "(0::int) \<le> 200000000" by simp
  have w: "\<not> writable demo_world ''''" by (simp add: demo_world_def)
  have f: "files demo_world = Map.empty" "stdout demo_world = []"
    by (simp_all add: demo_world_def)
  have b3: "\<not> ((0::int) < 3 \<and> timestamp_max demo_world < epoch_2024 + (3 - 1) * minute_ns)"
    by (simp add: demo_world_def epoch_2024_value minute_ns_def)
  have bb: "(0::int) < 200000000 \<and>
            timestamp_max demo_world < epoch_2024 + (200000000 - 1) * minute_ns"
    by (simp add: demo_world_def epoch_2024_value minute_ns_def)
  note a = generate_raises[where w = demo_world and mt = demo_mt and filename = "''''",
      OF n3, THEN conjunct2, rule_format]
  have a': "map_option fst (generate_random_dataset demo_mt demo_world '''' 3) = Some (Inl OSError) \<and>
            map_option (\<lambda>r. (files (snd r), stdout (snd r)))
              (generate_random_dataset demo_mt demo_world '''' 3) =
            Some (files demo_world, stdout demo_world)"
    by (rule a) (rule conjI[OF b3 w])
  have 1: "map_option fst (generate_random_dataset demo_mt demo_world '''' 3) = Some (Inl OSError)"
    using a' by (rule conjunct1)
  have 2: "map_option (\<lambda>r. (files (snd r), stdout (snd r)))
     (generate_random_dataset demo_mt demo_world '''' 3) = Some (Map.empty, [])"
    using a'[THEN conjunct2] unfolding f .
  have 3: "map_option fst (generate_random_dataset demo_mt demo_world ''data.csv'' 200000000) =
     Some (Inl ValueError)"
    by (rule generate_raises[where w = demo_world and mt = demo_mt and filename = "''data.csv''",
          OF nb, THEN conjunct1, rule_format])
       (rule bb)
  show ?thesis using 1 2 3 by (intro conjI)
qed

text \<open>
  The frame that \<^verbatim>\<open>generate_random_dataset\<close> returns is made of the draws from the
  generator seeded with 42 and of the minutes from 2024-01-01T00:00: neither the world
  before the call nor the file name reaches it.
\<close>
lemma generate_InrD:
  assumes "generate_random_dataset mt w f n = Some (Inr d, w')"
  shows "\<exists>rs g1 cs g2.
     choice_p (mt 42) response_values n response_weights = Inr (rs, g1) \<and>
     choice g1 category_values n = Some (Inr (cs, g2)) \<and>
     DataFrame [(''response'', IntCol rs), (''category'', StrCol cs),
                (''timestamp'', TimeCol (map (\<lambda>i. epoch_2024 + int i * minute_ns) [0..<nat n]))]
       = Inr d \<and>
     global_rng w' = g2"
proof -
  from assms obtain rs g1 where
    r: "choice_p (mt 42) response_values n response_weights = Inr (rs, g1)"
    by (cases "choice_p (mt 42) response_values n response_weights")
       (auto simp: generate_random_dataset_def generate_with_def Let_def)
  from assms r obtain cs g2 where
    c: "choice g1 category_values n = Some (Inr (cs, g2))"
    by (cases "choice g1 category_values n")
       (auto simp: generate_random_dataset_def generate_with_def Let_def split: sum.splits)
  from assms r c obtain ts where
    t: "date_range (timestamp_max w) epoch_2024 n = Inr ts"
    by (cases "date_range (timestamp_max w) epoch_2024 n")
       (auto simp: generate_random_dataset_def generate_with_def Let_def)
  note ts = date_range_InrD[OF t]
  from assms r c t have
    "DataFrame [(''response'', IntCol rs), (''category'', StrCol cs), (''timestamp'', TimeCol ts)]
       = Inr d \<and> global_rng w' = g2"
    by (cases "DataFrame [(''response'', IntCol rs), (''category'', StrCol cs),
                          (''timestamp'', TimeCol ts)]")
       (auto simp: generate_random_dataset_def generate_with_def Let_def to_csv_def
             split: if_splits)
  with r c ts show ?thesis by blast
qed

lemma generate_deterministic:
  assumes "generate_random_dataset mt w1 f1 n = Some (Inr d1, w1')"
    and "generate_random_dataset mt w2 f2 n = Some (Inr d2, w2')"
  shows "d1 = d2 \<and> global_rng w1' = global_rng w2'"
proof -
  from generate_InrD[OF assms(1)] obtain rs g1 cs g2 where
    a: "choice_p (mt 42) response_values n response_weights = Inr (rs, g1)"
       "choice g1 category_values n = Some (Inr (cs, g2))"
       "DataFrame [(''response'', IntCol rs), (''category'', StrCol cs),
                (''timestamp'', TimeCol (map (\<lambda>i. epoch_2024 + int i * minute_ns) [0..<nat n]))]
         = Inr d1"
       "global_rng w1' = g2" by blast
  from generate_InrD[OF assms(2)] obtain rs' g1' cs' g2' where
    b: "choice_p (mt 42) response_values n response_weights = Inr (rs', g1')"
       "choice g1' category_values n = Some (Inr (cs', g2'))"
       "DataFrame [(''response'', IntCol rs'), (''category'', StrCol cs'),
                (''timestamp'', TimeCol (map (\<lambda>i. epoch_2024 + int i * minute_ns) [0..<nat n]))]
         = Inr d2"
       "global_rng w2' = g2'" by blast
  have 1: "rs' = rs \<and> g1' = g1" using a(1) b(1) by simp
  have 2: "cs' = cs \<and> g2' = g2" using a(2) b(2) 1 by simp
  show ?thesis using a(3,4) b(3,4) 1 2 by simp
qed






section \<open>Facts about perform\_clustering\<close>

lemma perform_clustering_cases:
  "(\<exists>e. perform_clustering conv km data out column k = (Inl e, data, out)) \<or>
   (\<exists>X labels. df_getitem data column = Inr X \<and>
      fit_predict conv km k 0 X = Inr labels \<and> length labels = nrows data \<and>
      perform_clustering conv km data out column k =
        (Inr (data\<lparr>columns := AList.update ''cluster'' (IntCol (map int labels)) (columns data)\<rparr>),
         data\<lparr>columns := AList.update ''cluster'' (IntCol (map int labels)) (columns data)\<rparr>,
         out @ [''Clustering complete. Added 'cluster' column with '' @ str_int k @ '' clusters.'']))"
proof (cases "df_getitem data column")
  case (Inl e)
  then show ?thesis by (simp add: perform_clustering_def)
next
  case (Inr X)
  show ?thesis
  proof (cases "fit_predict conv km k 0 X")
    case (Inl e)
    then show ?thesis using Inr by (simp add: perform_clustering_def)
  next
    case lab: (Inr labels)
    show ?thesis
    proof (cases "length labels = nrows data")
      case True
      then show ?thesis using Inr lab by (simp add: perform_clustering_def df_setitem_def)
    next
      case False
      then show ?thesis using Inr lab by (simp add: perform_clustering_def df_setitem_def)
    qed
  qed
qed






lemma demo_clustering:
  "perform_clustering demo_conv demo_km test_data [] ''response'' 3 =
     (Inr \<lparr>nrows = 6, columns = [(''response'', IntCol [1, 2, 2, 3, 3, 3]),
                                 (''cluster'', IntCol [1, 2, 2, 0, 0, 0])]\<rparr>,
      \<lparr>nrows = 6, columns = [(''response'', IntCol [1, 2, 2, 3, 3, 3]),
                            (''cluster'', IntCol [1, 2, 2, 0, 0, 0])]\<rparr>,
      [''Clustering complete. Added 'cluster' column with 3 clusters.''])"
  by (simp add: perform_clustering_def df_getitem_def test_data_def fit_predict_def
      demo_km_def df_setitem_def str_int_def)


lemma perform_clustering_absent:
  assumes "map_of (columns data) column = None"
  shows "perform_clustering conv km data out column k = (Inl KeyError, data, out)"
  using assms by (simp add: perform_clustering_def df_getitem_def)

lemma perform_clustering_fit_fails:
  assumes "df_getitem data column = Inr X" "fit_predict conv km k 0 X = Inl e"
  shows "perform_clustering conv km data out column k = (Inl e, data, out)"
  using assms by (simp add: perform_clustering_def)

lemma fit_predict_few_clusters:
  assumes "k \<le> 0"
  shows "fit_predict conv km k rs X = Inl ValueError"
  using assms by (simp add: fit_predict_def)

lemma those_map_length:
  "those (map f xs) = Some ys \<Longrightarrow> length ys = length xs"
  by (induction xs arbitrary: ys) (auto split: option.splits)

lemma those_map_None:
  "x \<in> set xs \<Longrightarrow> f x = None \<Longrightarrow> those (map f xs) = None"
  by (induction xs) (auto split: option.splits)

lemma check_array_length:
  assumes "check_array conv X = Inr xs"
  shows "length xs = col_len X"
  using assms by (cases X) (auto simp: those_map_length split: option.splits)

lemma check_array_InlD:
  assumes "check_array conv X = Inl e"
  shows "e = ValueError"
  using assms by (cases X) (auto split: option.splits)

lemma check_array_refused:
  assumes "s \<in> set ss" "conv s = None"
  shows "check_array conv (StrCol ss) = Inl ValueError"
  using those_map_None[of s ss conv, OF assms] by simp

lemma fit_predict_few_samples:
  assumes "int (col_len X) < k"
  shows "fit_predict conv km k rs X = Inl ValueError"
proof (cases "check_array conv X")
  case (Inl e)
  then have "e = ValueError" by (rule check_array_InlD)
  with Inl show ?thesis by (simp add: fit_predict_def)
next
  case (Inr xs)
  then have "length xs = col_len X" by (rule check_array_length)
  with Inr assms show ?thesis by (simp add: fit_predict_def)
qed

lemma fit_predict_not_numeric:
  assumes "check_array conv X = Inl ValueError"
  shows "fit_predict conv km k rs X = Inl ValueError"
  using assms by (simp add: fit_predict_def)

lemma perform_clustering_failure_unmodified:
  assumes "fst (perform_clustering conv km data out column k) = Inl e"
  shows "perform_clustering conv km data out column k = (Inl e, data, out)"
  using perform_clustering_cases[of conv km data out column k] assms by auto

text \<open>
  Claim C5, as the program has it. A column that the frame does not have gives
  \<open>KeyError\<close> (the specification's \<open>UnknownColumn\<close>, not its \<open>InvalidArgument\<close>),
  whatever \<open>k\<close> is. For a column that the frame has, no cluster or a negative number of
  clusters, more clusters than rows, and a string that the conversion to floats refuses
  each give \<open>ValueError\<close> (\<open>InvalidArgument\<close>). Whatever the failure, the frame and the
  output are as before the call: the column is assigned only after \<^verbatim>\<open>fit_predict\<close>
  has returned.
\<close>
theorem perform_clustering_failures:
  "(map_of (columns data) column = None \<longrightarrow>
      perform_clustering conv km data out column k = (Inl KeyError, data, out)) \<and>
   (df_getitem data column = Inr X \<and> k \<le> 0 \<longrightarrow>
      perform_clustering conv km data out column k = (Inl ValueError, data, out)) \<and>
   (wf_dataframe data \<and> df_getitem data column = Inr X \<and> int (nrows data) < k \<longrightarrow>
      perform_clustering conv km data out column k = (Inl ValueError, data, out)) \<and>
   (df_getitem data column = Inr (StrCol ss) \<and> s \<in> set ss \<and> conv s = None \<longrightarrow>
      perform_clustering conv km data out column k = (Inl ValueError, data, out)) \<and>
   (fst (perform_clustering conv km data out column k) = Inl e \<longrightarrow>
      snd (perform_clustering conv km data out column k) = (data, out))"
proof (intro conjI impI)
  assume "map_of (columns data) column = None"
  then show "perform_clustering conv km data out column k = (Inl KeyError, data, out)"
    by (rule perform_clustering_absent)
next
  assume a: "df_getitem data column = Inr X \<and> k \<le> 0"
  then have "fit_predict conv km k 0 X = Inl ValueError" by (simp add: fit_predict_few_clusters)
  with a show "perform_clustering conv km data out column k = (Inl ValueError, data, out)"
    by (simp add: perform_clustering_fit_fails)
next
  assume a: "wf_dataframe data \<and> df_getitem data column = Inr X \<and> int (nrows data) < k"
  then have "col_len X = nrows data" using wf_col_len by blast
  with a have "int (col_len X) < k" by simp
  then have "fit_predict conv km k 0 X = Inl ValueError" by (rule fit_predict_few_samples)
  with a show "perform_clustering conv km data out column k = (Inl ValueError, data, out)"
    by (simp add: perform_clustering_fit_fails)
next
  assume a: "df_getitem data column = Inr (StrCol ss) \<and> s \<in> set ss \<and> conv s = None"
  then have "check_array conv (StrCol ss) = Inl ValueError"
    using check_array_refused[of s ss conv] by blast
  then have "fit_predict conv km k 0 (StrCol ss) = Inl ValueError"
    by (rule fit_predict_not_numeric)
  with a show "perform_clustering conv km data out column k = (Inl ValueError, data, out)"
    by (simp add: perform_clustering_fit_fails)
next
  assume "fst (perform_clustering conv km data out column k) = Inl e"
  then have "perform_clustering conv km data out column k = (Inl e, data, out)"
    by (rule perform_clustering_failure_unmodified)
  then show "snd (perform_clustering conv km data out column k) = (data, out)" by simp
qed

lemma getitem_test_response: "df_getitem test_data ''response'' = Inr (IntCol [1, 2, 2, 3, 3, 3])"
  by (simp add: df_getitem_def test_data_def)

lemma getitem_category: "df_getitem category_frame ''category'' = Inr (StrCol [''B'', ''A'', ''B'', ''A'', ''C''])"
  by (simp add: df_getitem_def category_frame_def)

lemma demo_conv_letter: "demo_conv ''B'' = None"
  by (simp add: demo_conv_def)

theorem perform_clustering_failures_witness:
  "perform_clustering demo_conv demo_km test_data [] ''missing'' 3 = (Inl KeyError, test_data, []) \<and>
   perform_clustering demo_conv demo_km test_data [] ''response'' 0 = (Inl ValueError, test_data, []) \<and>
   perform_clustering demo_conv demo_km test_data [] ''response'' 7 = (Inl ValueError, test_data, []) \<and>
   perform_clustering demo_conv demo_km category_frame [] ''category'' 7 =
     (Inl ValueError, category_frame, []) \<and>
   perform_clustering demo_conv demo_km category_frame [] ''category'' 2 =
     (Inl ValueError, category_frame, []) \<and>
   snd (perform_clustering demo_conv demo_km category_frame [] ''category'' 2) = (category_frame, [])"
proof -
  have a: "map_of (columns test_data) ''missing'' = None" by (simp add: test_data_def)
  have b: "df_getitem test_data ''response'' = Inr (IntCol [1, 2, 2, 3, 3, 3]) \<and> (0::int) \<le> 0"
    by (simp add: getitem_test_response)
  have c: "wf_dataframe test_data \<and> df_getitem test_data ''response'' = Inr (IntCol [1, 2, 2, 3, 3, 3]) \<and>
      int (nrows test_data) < 7"
    by (simp add: getitem_test_response wf_frames(1)) (simp add: test_data_def)
  have c': "wf_dataframe category_frame \<and>
      df_getitem category_frame ''category'' = Inr (StrCol [''B'', ''A'', ''B'', ''A'', ''C'']) \<and>
      int (nrows category_frame) < 7"
    by (simp add: getitem_category wf_frames) (simp add: category_frame_def)
  have d: "df_getitem category_frame ''category'' = Inr (StrCol [''B'', ''A'', ''B'', ''A'', ''C'']) \<and>
      ''B'' \<in> set [''B'', ''A'', ''B'', ''A'', ''C''] \<and> demo_conv ''B'' = None"
    by (simp add: getitem_category demo_conv_letter)
  note t1 = perform_clustering_failures[where data = test_data and column = "''missing''"
      and conv = demo_conv and km = demo_km and out = "[]" and k = 3]
  note t2 = perform_clustering_failures[where data = test_data and column = "''response''"
      and conv = demo_conv and km = demo_km and out = "[]" and k = 0
      and X = "IntCol [1, 2, 2, 3, 3, 3]"]
  note t3 = perform_clustering_failures[where data = test_data and column = "''response''"
      and conv = demo_conv and km = demo_km and out = "[]" and k = 7
      and X = "IntCol [1, 2, 2, 3, 3, 3]"]
  note t4 = perform_clustering_failures[where data = category_frame and column = "''category''"
      and conv = demo_conv and km = demo_km and out = "[]" and k = 7
      and X = "StrCol [''B'', ''A'', ''B'', ''A'', ''C'']"]
  note t5 = perform_clustering_failures[where data = category_frame and column = "''category''"
      and conv = demo_conv and km = demo_km and out = "[]" and k = 2
      and ss = "[''B'', ''A'', ''B'', ''A'', ''C'']" and s = "''B''" and e = ValueError]
  have 1: "perform_clustering demo_conv demo_km test_data [] ''missing'' 3 = (Inl KeyError, test_data, [])"
    by (rule t1[THEN conjunct1, rule_format, OF a])
  have 2: "perform_clustering demo_conv demo_km test_data [] ''response'' 0 = (Inl ValueError, test_data, [])"
    by (rule t2[THEN conjunct2, THEN conjunct1, rule_format, OF b])
  have 3: "perform_clustering demo_conv demo_km test_data [] ''response'' 7 = (Inl ValueError, test_data, [])"
    by (rule t3[THEN conjunct2, THEN conjunct2, THEN conjunct1, rule_format, OF c])
  have 4: "perform_clustering demo_conv demo_km category_frame [] ''category'' 7 =
     (Inl ValueError, category_frame, [])"
    by (rule t4[THEN conjunct2, THEN conjunct2, THEN conjunct1, rule_format, OF c'])
  have 5: "perform_clustering demo_conv demo_km category_frame [] ''category'' 2 =
     (Inl ValueError, category_frame, [])"
    by (rule t5[THEN conjunct2, THEN conjunct2, THEN conjunct2, THEN conjunct1, rule_format, OF d])
  have f: "fst (perform_clustering demo_conv demo_km category_frame [] ''category'' 2) = Inl ValueError"
    unfolding 5 by simp
  have 6: "snd (perform_clustering demo_conv demo_km category_frame [] ''category'' 2) =
     (category_frame, [])"
    by (rule t5[THEN conjunct2, THEN conjunct2, THEN conjunct2, THEN conjunct2, rule_format, OF f])
  from 1 2 3 4 5 6 show ?thesis by (intro conjI)
qed

text \<open>
  Claim C5 as stated fails twice. A column that the frame does not have gives
  \<open>KeyError\<close>, the error of every lookup of an unknown column, and not \<open>ValueError\<close>,
  also when \<open>k\<close> is 0: the lookup comes first. And a column that is not numeric need
  not fail: a column of timestamps is converted to floats and clustered (into one
  cluster here, so that every label is 0 whatever the partitioning).
\<close>

theorem perform_clustering_failures_counterexample:
  "map_of (columns test_data) ''missing'' = None \<and>
   fst (perform_clustering demo_conv demo_km test_data [] ''missing'' 3) = Inl KeyError \<and>
   fst (perform_clustering demo_conv demo_km test_data [] ''missing'' 0) = Inl KeyError \<and>
   perform_clustering demo_conv demo_km timestamp_frame [] ''timestamp'' 1 =
     (Inr \<lparr>nrows = 3,
           columns = [(''timestamp'', TimeCol [1704067200000000000, 1704067260000000000,
                                               1704067320000000000]),
                      (''cluster'', IntCol [0, 0, 0])]\<rparr>,
      \<lparr>nrows = 3,
       columns = [(''timestamp'', TimeCol [1704067200000000000, 1704067260000000000,
                                           1704067320000000000]),
                  (''cluster'', IntCol [0, 0, 0])]\<rparr>,
      [''Clustering complete. Added 'cluster' column with 1 clusters.''])"
proof -
  have 1: "map_of (columns test_data) ''missing'' = None" by (simp add: test_data_def)
  have 2: "fst (perform_clustering demo_conv demo_km test_data [] ''missing'' 3) = Inl KeyError"
    by (simp add: perform_clustering_def df_getitem_def test_data_def)
  have 3: "fst (perform_clustering demo_conv demo_km test_data [] ''missing'' 0) = Inl KeyError"
    by (simp add: perform_clustering_def df_getitem_def test_data_def)
  have 4: "perform_clustering demo_conv demo_km timestamp_frame [] ''timestamp'' 1 =
     (Inr \<lparr>nrows = 3,
           columns = [(''timestamp'', TimeCol [1704067200000000000, 1704067260000000000,
                                               1704067320000000000]),
                      (''cluster'', IntCol [0, 0, 0])]\<rparr>,
      \<lparr>nrows = 3,
       columns = [(''timestamp'', TimeCol [1704067200000000000, 1704067260000000000,
                                           1704067320000000000]),
                  (''cluster'', IntCol [0, 0, 0])]\<rparr>,
      [''Clustering complete. Added 'cluster' column with 1 clusters.''])"
    by (simp add: perform_clustering_def df_getitem_def timestamp_frame_def fit_predict_def
        demo_km_def df_setitem_def str_int_def)
  from 1 2 3 4 show ?thesis by (intro conjI)
qed

lemma perform_clustering_labels:
  "map_sum id (\<lambda>d. df_getitem d ''cluster'') (fst (perform_clustering conv km data out column k)) =
   (case df_getitem data column of
      Inl e \<Rightarrow> Inl e
    | Inr X \<Rightarrow>
        (case fit_predict conv km k 0 X of
           Inl e \<Rightarrow> Inl e
         | Inr labels \<Rightarrow>
             if length labels \<noteq> nrows data then Inl ValueError
             else Inr (Inr (IntCol (map int labels)))))"
  by (simp add: perform_clustering_def df_setitem_def df_getitem_def update_conv'
      split: sum.splits)

text \<open>
  Claim C6. Two calls of \<^verbatim>\<open>generate_random_dataset\<close> with one \<open>num_rows\<close> that
  return a frame return the same frame, in whatever worlds and to whatever files, and
  leave the generator in the same state; two calls of \<^verbatim>\<open>perform_clustering\<close> with
  one \<open>k\<close> on frames that have the same rows in the clustered column assign the same
  labels, or fail alike (the seed of k-means is the constant 0, and nothing else of the
  frame reaches it).
\<close>
theorem generate_and_clustering_deterministic:
  "(generate_random_dataset mt w1 f1 n = Some (Inr g1, w1') \<and>
    generate_random_dataset mt w2 f2 n = Some (Inr g2, w2') \<longrightarrow>
      g1 = g2 \<and> global_rng w1' = global_rng w2') \<and>
   (df_getitem d1 column = df_getitem d2 column \<and> nrows d1 = nrows d2 \<longrightarrow>
      map_sum id (\<lambda>d. df_getitem d ''cluster'') (fst (perform_clustering conv km d1 o1 column k)) =
      map_sum id (\<lambda>d. df_getitem d ''cluster'') (fst (perform_clustering conv km d2 o2 column k)))"
proof (intro conjI impI)
  assume a: "generate_random_dataset mt w1 f1 n = Some (Inr g1, w1') \<and>
    generate_random_dataset mt w2 f2 n = Some (Inr g2, w2')"
  have r: "g1 = g2 \<and> global_rng w1' = global_rng w2'"
    by (rule generate_deterministic[OF a[THEN conjunct1] a[THEN conjunct2]])
  show "g1 = g2" using r by (rule conjunct1)
  show "global_rng w1' = global_rng w2'" using r by (rule conjunct2)
next
  assume a: "df_getitem d1 column = df_getitem d2 column \<and> nrows d1 = nrows d2"
  have g: "df_getitem d1 column = df_getitem d2 column" using a by (rule conjunct1)
  have r: "nrows d1 = nrows d2" using a by (rule conjunct2)
  show "map_sum id (\<lambda>d. df_getitem d ''cluster'') (fst (perform_clustering conv km d1 o1 column k)) =
      map_sum id (\<lambda>d. df_getitem d ''cluster'') (fst (perform_clustering conv km d2 o2 column k))"
    unfolding perform_clustering_labels g r by (rule refl)
qed

lemma demo_world_printed_writable: "writable (demo_world\<lparr>stdout := [''earlier line'']\<rparr>) ''b.csv''"
  by (simp add: demo_world_def)

lemma demo_world_printed_three_rows:
  "(3::int) = 0 \<or>
   epoch_2024 + (3 - 1) * minute_ns \<le> timestamp_max (demo_world\<lparr>stdout := [''earlier line'']\<rparr>)"
  by (simp add: demo_world_def epoch_2024_value minute_ns_def)

lemma demo_world_a_writable: "writable demo_world ''a.csv''"
  by (simp add: demo_world_def)

lemma demo_world_three_rows_or:
  "(3::int) = 0 \<or> epoch_2024 + (3 - 1) * minute_ns \<le> timestamp_max demo_world"
  by (simp add: demo_world_def epoch_2024_value minute_ns_def)

theorem generate_and_clustering_deterministic_witness:
  "(\<exists>g w1' w2'.
      generate_random_dataset demo_mt demo_world ''a.csv'' 3 = Some (Inr g, w1') \<and>
      generate_random_dataset demo_mt (demo_world\<lparr>stdout := [''earlier line'']\<rparr>) ''b.csv'' 3 =
        Some (Inr g, w2') \<and>
      global_rng w1' = global_rng w2') \<and>
   fst (perform_clustering demo_conv demo_km test_data [] ''response'' 3) = Inr clustered_test_data \<and>
   map_sum id (\<lambda>d. df_getitem d ''cluster'')
     (fst (perform_clustering demo_conv demo_km clustered_test_data [''again''] ''response'' 3)) =
   Inr (Inr (IntCol [1, 2, 2, 0, 0, 0]))"
proof -
  have n: "(0::int) \<le> 3" by simp
  from generate_ok[OF n demo_world_a_writable demo_world_three_rows_or, of demo_mt]
  obtain ga wa where
    ga: "generate_random_dataset demo_mt demo_world ''a.csv'' 3 = Some (Inr ga, wa)" by blast
  from generate_ok[OF n demo_world_printed_writable demo_world_printed_three_rows, of demo_mt]
  obtain gb wb where
    gb: "generate_random_dataset demo_mt (demo_world\<lparr>stdout := [''earlier line'']\<rparr>) ''b.csv'' 3 =
           Some (Inr gb, wb)" by blast
  note t = generate_and_clustering_deterministic[where mt = demo_mt and ?w1.0 = demo_world
      and ?f1.0 = "''a.csv''" and n = 3 and ?g1.0 = ga and ?w1' = wa
      and ?w2.0 = "demo_world\<lparr>stdout := [''earlier line'']\<rparr>" and ?f2.0 = "''b.csv''"
      and ?g2.0 = gb and ?w2' = wb
      and ?d1.0 = test_data and column = "''response''" and ?d2.0 = clustered_test_data
      and conv = demo_conv and km = demo_km and ?o1.0 = "[]" and k = 3 and ?o2.0 = "[''again'']"]
  have s: "ga = gb \<and> global_rng wa = global_rng wb"
    by (rule t[THEN conjunct1, rule_format]) (rule conjI[OF ga gb])
  have gb': "generate_random_dataset demo_mt (demo_world\<lparr>stdout := [''earlier line'']\<rparr>) ''b.csv'' 3 =
           Some (Inr ga, wb)"
    using gb s by simp
  have x: "\<exists>g w1' w2'.
      generate_random_dataset demo_mt demo_world ''a.csv'' 3 = Some (Inr g, w1') \<and>
      generate_random_dataset demo_mt (demo_world\<lparr>stdout := [''earlier line'']\<rparr>) ''b.csv'' 3 =
        Some (Inr g, w2') \<and>
      global_rng w1' = global_rng w2'"
    using ga gb' s[THEN conjunct2] by (intro exI conjI)
  have r: "fst (perform_clustering demo_conv demo_km test_data [] ''response'' 3) = Inr clustered_test_data"
    by (simp add: demo_clustering clustered_test_data_def)
  have h: "df_getitem test_data ''response'' = df_getitem clustered_test_data ''response'' \<and>
           nrows test_data = nrows clustered_test_data"
    by (simp add: df_getitem_def test_data_def clustered_test_data_def)
  have e: "map_sum id (\<lambda>d. df_getitem d ''cluster'')
       (fst (perform_clustering demo_conv demo_km test_data [] ''response'' 3)) =
     map_sum id (\<lambda>d. df_getitem d ''cluster'')
       (fst (perform_clustering demo_conv demo_km clustered_test_data [''again''] ''response'' 3))"
    by (rule t[THEN conjunct2, rule_format, OF h])
  have c: "df_getitem clustered_test_data ''cluster'' = Inr (IntCol [1, 2, 2, 0, 0, 0])"
    by (simp add: df_getitem_def clustered_test_data_def)
  have l: "map_sum id (\<lambda>d. df_getitem d ''cluster'')
     (fst (perform_clustering demo_conv demo_km clustered_test_data [''again''] ''response'' 3)) =
   Inr (Inr (IntCol [1, 2, 2, 0, 0, 0]))"
    unfolding e[symmetric] r by (simp add: c)
  from x r l show ?thesis by (intro conjI)
qed

end
